theory Spec2Isabelle
  imports Main "HOL-Library.Sublist" "HOL-Library.Multiset" "HOL-Library.AList"
begin

section \<open>Exceptions\<close>

text \<open>
  Every exception the modelled functions can raise is a value of \<open>py_error\<close>; a function
  that may raise returns \<open>py_error + 'a\<close> with \<open>Inl\<close> for the exception.
\<close>

datatype py_error =
    RuntimeError string
  | Exception string
  | ValueError string
  | NameError string
  | KeyError string
  | TypeError
  | AttributeError
  | UnboundLocalError string
  | UnboundExecutionError

section \<open>Engine and session manager (multipatch_analysis/database/database.py)\<close>

text \<open>
  The module constants \<open>db_address_ro\<close> and \<open>db_address_rw\<close> (the latter is Python's
  \<open>None\<close> when \<open>config.synphys_db_host_rw\<close> is).
\<close>

record config =
  db_address_ro :: string
  db_address_rw :: "string option"

text \<open>
  An Engine object. \<open>engine_id\<close> is the identity of the Python object: every call of
  \<open>create_engine\<close> builds a new object.
\<close>

record engine =
  engine_id :: nat
  engine_url :: string
  engine_opts :: "(string \<times> string) list"

datatype sessionmaker = Sessionmaker (sm_bind: "engine option")

datatype db_session = DbSession (session_bind: "engine option")

datatype orm_table = OrmTable (table_name: string)

datatype ddl = CreateAll "engine option" "orm_table list option"

text \<open>
  The module globals \<open>engine_ro\<close>, \<open>engine_rw\<close>, \<open>engine_pid\<close>, \<open>_sessionmaker_ro\<close> and
  \<open>_sessionmaker_rw\<close>, together with what the outside world records: the next object
  identity, the engines on which \<open>dispose()\<close> was called, and the DDL batches issued.
\<close>

record db_state =
  engine_ro :: "engine option"
  engine_rw :: "engine option"
  engine_pid :: "nat option"
  sessionmaker_ro :: "sessionmaker option"
  sessionmaker_rw :: "sessionmaker option"
  next_engine_id :: nat
  disposed :: "engine list"
  ddl_log :: "ddl list"

definition create_engine :: "string \<Rightarrow> (string \<times> string) list \<Rightarrow> db_state \<Rightarrow> engine \<times> db_state" where
  "create_engine url opts st =
     (\<lparr>engine_id = next_engine_id st, engine_url = url, engine_opts = opts\<rparr>,
      st\<lparr>next_engine_id := Suc (next_engine_id st)\<rparr>)"

definition dispose_engines :: "db_state \<Rightarrow> db_state" where
  "dispose_engines st =
     (let st1 = (case engine_ro st of
                   None \<Rightarrow> st
                 | Some e \<Rightarrow> st\<lparr>disposed := disposed st @ [e], engine_ro := None,
                                 sessionmaker_ro := None\<rparr>);
          st2 = (case engine_rw st1 of
                   None \<Rightarrow> st1
                 | Some e \<Rightarrow> st1\<lparr>disposed := disposed st1 @ [e], engine_rw := None,
                                  sessionmaker_rw := None\<rparr>)
      in st2\<lparr>engine_pid := None\<rparr>)"

definition opts_postgres_ro :: "(string \<times> string) list" where
  "opts_postgres_ro =
     [(''pool_size'', ''10''), (''max_overflow'', ''40''), (''isolation_level'', ''AUTOCOMMIT'')]"

definition opts_postgres_rw :: "(string \<times> string) list" where
  "opts_postgres_rw = [(''pool_size'', ''10''), (''max_overflow'', ''40'')]"

text \<open>\<open>pid\<close> is the value of \<open>os.getpid()\<close> in the calling process.\<close>

definition init_engines :: "config \<Rightarrow> nat \<Rightarrow> db_state \<Rightarrow> db_state" where
  "init_engines cfg pid st =
     (let st0 = dispose_engines st;
          opts_ro = (if prefix ''postgres'' (db_address_ro cfg) then opts_postgres_ro else []);
          opts_rw = (if prefix ''postgres'' (db_address_ro cfg) then opts_postgres_rw else []);
          (e_ro, st1) = create_engine (db_address_ro cfg) opts_ro st0;
          st2 = st1\<lparr>engine_ro := Some e_ro\<rparr>;
          st3 = (case db_address_rw cfg of
                   None \<Rightarrow> st2
                 | Some addr \<Rightarrow>
                     (let (e_rw, st') = create_engine addr opts_rw st2
                      in st'\<lparr>engine_rw := Some e_rw\<rparr>))
      in st3\<lparr>engine_pid := Some pid\<rparr>)"

definition get_engines :: "config \<Rightarrow> nat \<Rightarrow> db_state \<Rightarrow> (engine option \<times> engine option) \<times> db_state" where
  "get_engines cfg pid st =
     (let st1 = (if Some pid \<noteq> engine_pid st then dispose_engines st else st);
          st2 = (if engine_ro st1 = None then init_engines cfg pid st1 else st1)
      in ((engine_ro st2, engine_rw st2), st2))"

text \<open>The state of the module before its first statement runs, and after it is imported.\<close>

definition unloaded :: db_state where
  "unloaded = \<lparr>engine_ro = None, engine_rw = None, engine_pid = None,
                sessionmaker_ro = None, sessionmaker_rw = None,
                next_engine_id = 0, disposed = [], ddl_log = []\<rparr>"

definition module_import :: "config \<Rightarrow> nat \<Rightarrow> db_state" where
  "module_import cfg pid =
     (init_engines cfg pid unloaded)\<lparr>sessionmaker_ro := None, sessionmaker_rw := None\<rparr>"

definition Session :: "config \<Rightarrow> nat \<Rightarrow> bool \<Rightarrow> db_state \<Rightarrow> (py_error + db_session) \<times> db_state" where
  "Session cfg pid readonly st =
     (let ((ro, rw), st0) = get_engines cfg pid st;
          st1 = st0\<lparr>engine_ro := ro, engine_rw := rw\<rparr>
      in if readonly then
           (case sessionmaker_ro st1 of
              None \<Rightarrow> (Inr (DbSession ro), st1\<lparr>sessionmaker_ro := Some (Sessionmaker ro)\<rparr>)
            | Some sm \<Rightarrow> (Inr (DbSession (sm_bind sm)), st1))
         else if engine_rw st1 = None then
           (Inl (RuntimeError ''Cannot start read-write DB session; no write access engine is defined (see config.synphys_db_host_rw)''), st1)
         else
           (case sessionmaker_rw st1 of
              None \<Rightarrow> (Inr (DbSession rw), st1\<lparr>sessionmaker_rw := Some (Sessionmaker rw)\<rparr>)
            | Some sm \<Rightarrow> (Inr (DbSession (sm_bind sm)), st1)))"

text \<open>
  The module-level \<open>create_tables(tables, engine)\<close>; \<open>tables\<close> is \<open>None\<close> for all known tables. The name \<open>engine_rw\<close> is assigned in
  the body and not declared global, so it is local to the function: it is bound only
  when \<open>engine\<close> is \<open>None\<close>, and reading it otherwise raises \<open>UnboundLocalError\<close>.
  \<open>create_all\<close> with no engine to bind to raises SQLAlchemy's \<open>UnboundExecutionError\<close>.
\<close>

definition create_tables ::
    "config \<Rightarrow> nat \<Rightarrow> orm_table list option \<Rightarrow> engine option \<Rightarrow> db_state \<Rightarrow> (py_error + unit) \<times> db_state" where
  "create_tables cfg pid tables eng st =
     (case eng of
        Some e \<Rightarrow> (Inl (UnboundLocalError ''engine_rw''), st)
      | None \<Rightarrow>
          (let ((ro, rw), st1) = get_engines cfg pid st
           in case rw of
                None \<Rightarrow> (Inl UnboundExecutionError, st1)
              | Some e \<Rightarrow> (Inr (), st1\<lparr>ddl_log := ddl_log st1 @ [CreateAll rw tables]\<rparr>)))"

subsection \<open>TableGroup\<close>

text \<open>
  \<open>schemas\<close> holds the keys of the class's schema dictionary in declared order,
  \<open>mappings\<close> the ORM classes by table name.
\<close>

record table_group =
  schemas :: "string list"
  mappings :: "(string \<times> orm_table) list"

definition getitem :: "table_group \<Rightarrow> string \<Rightarrow> py_error + orm_table" where
  "getitem g item = (case map_of (mappings g) item of None \<Rightarrow> Inl (KeyError item) | Some t \<Rightarrow> Inr t)"

text \<open>The comprehension \<open>[self[k].__table__ for k in self.schemas]\<close>.\<close>

fun group_tables :: "table_group \<Rightarrow> string list \<Rightarrow> py_error + orm_table list" where
  "group_tables g [] = Inr []"
| "group_tables g (k # ks) =
     (case getitem g k of
        Inl e \<Rightarrow> Inl e
      | Inr t \<Rightarrow> (case group_tables g ks of Inl e \<Rightarrow> Inl e | Inr ts \<Rightarrow> Inr (t # ts)))"

text \<open>
  The verification loop of \<open>TableGroup.create_tables\<close>; \<open>names e\<close> is what
  \<open>e.table_names()\<close> returns. Calling \<open>table_names\<close> on \<open>None\<close> raises \<open>AttributeError\<close>.
\<close>

fun verify_tables :: "(engine \<Rightarrow> string list) \<Rightarrow> engine option \<Rightarrow> string \<Rightarrow> string list \<Rightarrow> py_error + unit" where
  "verify_tables names ero addr [] = Inr ()"
| "verify_tables names ero addr (k # ks) =
     (case ero of
        None \<Rightarrow> Inl AttributeError
      | Some e \<Rightarrow>
          if k \<notin> set (names e)
          then Inl (Exception (''Table '' @ k @ '' not found in database '' @ addr))
          else verify_tables names ero addr ks)"

definition TableGroup_create_tables ::
    "config \<Rightarrow> nat \<Rightarrow> (engine \<Rightarrow> string list) \<Rightarrow> table_group \<Rightarrow> db_state \<Rightarrow> (py_error + unit) \<times> db_state" where
  "TableGroup_create_tables cfg pid names g st =
     (if engine_rw st = None
      then (verify_tables names (engine_ro st) (db_address_ro cfg) (schemas g), st)
      else (case group_tables g (schemas g) of
              Inl e \<Rightarrow> (Inl e, st)
            | Inr ts \<Rightarrow> create_tables cfg pid (Some ts) None st))"

text \<open>
  Every engine held by the globals was handed out by \<open>create_engine\<close> earlier, and the
  stored process id is set only together with the read-only engine.
\<close>

definition engines_wf :: "db_state \<Rightarrow> bool" where
  "engines_wf st \<longleftrightarrow>
     (case engine_ro st of None \<Rightarrow> True | Some e \<Rightarrow> engine_id e < next_engine_id st) \<and>
     (case engine_rw st of None \<Rightarrow> True | Some e \<Rightarrow> engine_id e < next_engine_id st) \<and>
     (engine_pid st = None \<or> engine_ro st \<noteq> None)"

text \<open>A session factory, once built, is bound to the engine the globals hold.\<close>

definition sessionmakers_wf :: "db_state \<Rightarrow> bool" where
  "sessionmakers_wf st \<longleftrightarrow>
     (case sessionmaker_ro st of
        None \<Rightarrow> True
      | Some sm \<Rightarrow> engine_ro st \<noteq> None \<and> sm_bind sm = engine_ro st) \<and>
     (case sessionmaker_rw st of
        None \<Rightarrow> True
      | Some sm \<Rightarrow> engine_rw st \<noteq> None \<and> sm_bind sm = engine_rw st)"

text \<open>
  \<open>TableGroup.create_mappings\<close> calls \<open>generate_mapping\<close> for every schema key. The module
  neither defines nor imports that name, so the first call raises \<open>NameError\<close>; with no
  schema key the loop body never runs.
\<close>

definition create_mappings :: "string list \<Rightarrow> py_error + (string \<times> orm_table) list" where
  "create_mappings ks = (if ks = [] then Inr [] else Inl (NameError ''generate_mapping''))"

text \<open>
  \<open>TableGroup.__init__(tables)\<close> for a class whose \<open>schemas\<close> has the keys
  \<open>class_schemas\<close>. Given tables, the mappings are the ordered dictionary built from the
  pairs of each table's name and the table.
\<close>

definition TableGroup_init :: "string list \<Rightarrow> orm_table list option \<Rightarrow> py_error + table_group" where
  "TableGroup_init class_schemas tables =
     (case tables of
        None \<Rightarrow>
          (case create_mappings class_schemas of
             Inl e \<Rightarrow> Inl e
           | Inr m \<Rightarrow> Inr \<lparr>schemas = class_schemas, mappings = m\<rparr>)
      | Some ts \<Rightarrow>
          Inr \<lparr>schemas = class_schemas,
               mappings = fold (\<lambda>t m. AList.update (table_name t) t m) ts []\<rparr>)"

text \<open>Two deployments used as concrete inputs: with and without read-write credentials.\<close>

definition cfg_readwrite :: config where
  "cfg_readwrite = \<lparr>db_address_ro = ''postgresql://ro@db/synphys_12'',
                     db_address_rw = Some ''postgresql://rw@db/synphys_12''\<rparr>"

definition cfg_readonly :: config where
  "cfg_readonly = \<lparr>db_address_ro = ''sqlite:///synphys.sqlite'', db_address_rw = None\<rparr>"

text \<open>
  The group \<open>TableGroup(tables=[...])\<close> builds for the class of the experiment module, with the
  four tables it declares.
\<close>

definition experiment_group :: table_group where
  "experiment_group =
     \<lparr>schemas = [''experiment'', ''electrode'', ''cell'', ''pair''],
      mappings = [(''experiment'', OrmTable ''experiment''), (''electrode'', OrmTable ''electrode''),
                  (''cell'', OrmTable ''cell''), (''pair'', OrmTable ''pair'')]\<rparr>"

section \<open>Streaming table export (TableReadThread and bake_sqlite in database.py)\<close>

subsection \<open>The source table and the queries run against it\<close>

text \<open>
  A record of the table being read: its integer primary key and the other columns. The
  table is a list of records and does not change while it is read.
\<close>

record 'p row =
  row_id :: int
  row_data :: 'p

datatype query = MaxId | Range int int

text \<open>\<open>Session().query(func.max(table.id)).all()[0][0]\<close>: \<open>None\<close> on an empty table.\<close>

fun query_max_id :: "'p row list \<Rightarrow> int option" where
  "query_max_id [] = None"
| "query_max_id (r # rs) = Some (fold max (map row_id rs) (row_id r))"

text \<open>The chunk query: \<open>filter((table.id >= lo) & (table.id < hi))\<close>.\<close>

definition query_range :: "'p row list \<Rightarrow> int \<Rightarrow> int \<Rightarrow> 'p row list" where
  "query_range tbl lo hi = filter (\<lambda>r. lo \<le> row_id r \<and> row_id r < hi) tbl"

subsection \<open>Python's range\<close>

function range_up :: "int \<Rightarrow> int \<Rightarrow> int \<Rightarrow> int list" where
  "range_up i stop step = (if 0 < step \<and> i < stop then i # range_up (i + step) stop step else [])"
  by pat_completeness auto
termination
  by (relation "measure (\<lambda>(i, stop, step). nat (stop - i))") auto

function range_down :: "int \<Rightarrow> int \<Rightarrow> int \<Rightarrow> int list" where
  "range_down i stop step = (if step < 0 \<and> stop < i then i # range_down (i + step) stop step else [])"
  by pat_completeness auto
termination
  by (relation "measure (\<lambda>(i, stop, step). nat (i - stop))") auto

declare range_up.simps [simp del]

declare range_down.simps [simp del]

definition py_range :: "int \<Rightarrow> int \<Rightarrow> int \<Rightarrow> py_error + int list" where
  "py_range start stop step =
     (if step = 0 then Inl (ValueError ''range() arg 3 must not be zero'')
      else if 0 < step then Inr (range_up start stop step)
      else Inr (range_down start stop step))"

subsection \<open>The reader thread and its consumer\<close>

text \<open>What travels through the queue: a list of records, or the \<open>None\<close> that ends the stream.\<close>

datatype 'p item = Records "'p row list" | PyNone

text \<open>
  Where the thread is in \<open>run()\<close>: not yet in the loop; at the head of the loop with the
  values of \<open>i\<close> still to come; holding the records of a chunk, about to \<open>put\<close> them;
  past the loop, about to \<open>put(None)\<close>; returned; or dead with an exception.
\<close>

datatype 'p producer =
    Start
  | Loop "int list"
  | Put "'p row list" "int list"
  | PutNone
  | Returned
  | Raised py_error

text \<open>The \<open>for\<close> loop over the reader (its \<open>__iter__\<close> generator): running, or left by \<open>break\<close>.\<close>

datatype consumer = Iterating | Stopped

record 'p reader =
  table :: "'p row list"
  chunksize :: int
  max_id :: "int option"
  queue :: "'p item list"
  producer :: "'p producer"
  consumer :: consumer
  yielded :: "'p row list"
  queries :: "query list"

text \<open>\<open>queue.Queue(maxsize=5)\<close>\<close>

definition queue_maxsize :: nat where
  "queue_maxsize = 5"

text \<open>\<open>__init__\<close>: the maximum id is queried once, then the thread is started.\<close>

definition TableReadThread :: "'p row list \<Rightarrow> int \<Rightarrow> 'p reader" where
  "TableReadThread tbl csize =
     \<lparr>table = tbl, chunksize = csize, max_id = query_max_id tbl, queue = [],
      producer = Start, consumer = Iterating, yielded = [], queries = [MaxId]\<rparr>"

text \<open>
  One step of \<open>run()\<close>; \<open>None\<close> when the thread cannot move: it is blocked in \<open>put\<close> on a
  full queue, has returned, or is dead. \<open>range(0, None, chunksize)\<close> raises \<open>TypeError\<close>.
\<close>

definition run_step :: "'p reader \<Rightarrow> 'p reader option" where
  "run_step s =
     (case producer s of
        Start \<Rightarrow>
          (case max_id s of
             None \<Rightarrow> Some (s\<lparr>producer := Raised TypeError\<rparr>)
           | Some m \<Rightarrow>
               (case py_range 0 m (chunksize s) of
                  Inl e \<Rightarrow> Some (s\<lparr>producer := Raised e\<rparr>)
                | Inr ids \<Rightarrow> Some (s\<lparr>producer := Loop ids\<rparr>)))
      | Loop [] \<Rightarrow> Some (s\<lparr>producer := PutNone\<rparr>)
      | Loop (i # ids) \<Rightarrow>
          Some (s\<lparr>queries := queries s @ [Range i (i + chunksize s)],
                 producer := Put (query_range (table s) i (i + chunksize s)) ids\<rparr>)
      | Put recs ids \<Rightarrow>
          if length (queue s) < queue_maxsize
          then Some (s\<lparr>queue := queue s @ [Records recs], producer := Loop ids\<rparr>)
          else None
      | PutNone \<Rightarrow>
          if length (queue s) < queue_maxsize
          then Some (s\<lparr>queue := queue s @ [PyNone], producer := Returned\<rparr>)
          else None
      | Returned \<Rightarrow> None
      | Raised e \<Rightarrow> None)"

text \<open>
  One step of the consumer: \<open>queue.get()\<close>, then either \<open>break\<close> or yield every record
  of the batch. \<open>None\<close> when it has stopped or is blocked in \<open>get\<close> on an empty queue.
\<close>

definition iter_step :: "'p reader \<Rightarrow> 'p reader option" where
  "iter_step s =
     (case consumer s of
        Stopped \<Rightarrow> None
      | Iterating \<Rightarrow>
          (case queue s of
             [] \<Rightarrow> None
           | Records recs # q \<Rightarrow> Some (s\<lparr>queue := q, yielded := yielded s @ recs\<rparr>)
           | PyNone # q \<Rightarrow> Some (s\<lparr>queue := q, consumer := Stopped\<rparr>)))"

text \<open>The states the two threads can reach from \<open>s0\<close>, under every interleaving.\<close>

inductive reachable :: "'p reader \<Rightarrow> 'p reader \<Rightarrow> bool" for s0 :: "'p reader" where
  start: "reachable s0 s0"
| run: "reachable s0 s \<Longrightarrow> run_step s = Some s' \<Longrightarrow> reachable s0 s'"
| iter: "reachable s0 s \<Longrightarrow> iter_step s = Some s' \<Longrightarrow> reachable s0 s'"

subsection \<open>The same reader, read as a function\<close>

text \<open>Everything \<open>run()\<close> puts on the queue when it is never blocked for good.\<close>

definition run_items :: "'p row list \<Rightarrow> int \<Rightarrow> py_error + 'p item list" where
  "run_items tbl csize =
     (case query_max_id tbl of
        None \<Rightarrow> Inl TypeError
      | Some m \<Rightarrow>
          (case py_range 0 m csize of
             Inl e \<Rightarrow> Inl e
           | Inr ids \<Rightarrow> Inr (map (\<lambda>i. Records (query_range tbl i (i + csize))) ids @ [PyNone])))"

text \<open>
  The records \<open>__iter__\<close> yields from a sequence of queue items; \<open>None\<close> when the sequence
  ends before a \<open>None\<close> item, where the consumer waits in \<open>get\<close> for ever.
\<close>

fun iter_rows :: "'p item list \<Rightarrow> 'p row list option" where
  "iter_rows [] = None"
| "iter_rows (PyNone # q) = Some []"
| "iter_rows (Records recs # q) = map_option ((@) recs) (iter_rows q)"

definition read_table :: "'p row list \<Rightarrow> int \<Rightarrow> 'p row list option" where
  "read_table tbl csize = (case run_items tbl csize of Inl e \<Rightarrow> None | Inr its \<Rightarrow> iter_rows its)"

subsection \<open>bake_sqlite\<close>

text \<open>
  The loop of \<open>bake_sqlite\<close> over the tables, given as name and content. Every record the
  reader yields is inserted into the destination table of the same name, and the table
  is committed when its reader is exhausted. \<open>i\<close> is the loop variable of
  \<open>enumerate(reader)\<close>, which the line printed before the commit reads: it is unbound
  while no record has been yielded. The result is \<open>None\<close> when the loop never ends.
\<close>

fun bake_tables ::
    "(string \<times> 'p row list) list \<Rightarrow> (string \<times> 'p row list) list \<Rightarrow> nat option \<Rightarrow>
     (py_error + (string \<times> 'p row list) list) option" where
  "bake_tables [] dest i = Some (Inr dest)"
| "bake_tables ((name, tbl) # ts) dest i =
     (case read_table tbl 1000 of
        None \<Rightarrow> None
      | Some rows \<Rightarrow>
          (case (if rows = [] then i else Some (length rows - 1)) of
             None \<Rightarrow> Some (Inl (UnboundLocalError ''i''))
           | Some j \<Rightarrow> bake_tables ts (dest @ [(name, rows)]) (Some j)))"

definition bake_sqlite ::
    "config \<Rightarrow> nat \<Rightarrow> string \<Rightarrow> (string \<times> 'p row list) list \<Rightarrow> db_state \<Rightarrow>
     (py_error + (string \<times> 'p row list) list) option" where
  "bake_sqlite cfg pid sqlite_file tables st =
     (let (sqlite_engine, st1) = create_engine (''sqlite:///'' @ sqlite_file) [] st
      in case create_tables cfg pid None (Some sqlite_engine) st1 of
           (Inl e, st2) \<Rightarrow> Some (Inl e)
         | (Inr u, st2) \<Rightarrow> bake_tables tables [] None)"

subsection \<open>Notions used to reason about the reader\<close>

text \<open>The value of \<open>i\<close> at which the chunk loop stops: the first \<open>i\<close> not below \<open>stop\<close>.\<close>

function range_stop :: "int \<Rightarrow> int \<Rightarrow> int \<Rightarrow> int" where
  "range_stop i stop step = (if 0 < step \<and> i < stop then range_stop (i + step) stop step else i)"
  by pat_completeness auto
termination
  by (relation "measure (\<lambda>(i, stop, step). nat (stop - i))") auto

declare range_stop.simps [simp del]

text \<open>The records held by a sequence of queue items.\<close>

fun rows_of :: "'p item list \<Rightarrow> 'p row list" where
  "rows_of [] = []"
| "rows_of (Records recs # q) = recs @ rows_of q"
| "rows_of (PyNone # q) = rows_of q"

text \<open>The items \<open>run()\<close> has still to put, and the range queries it has still to issue.\<close>

definition chunk_items :: "'p reader \<Rightarrow> int list \<Rightarrow> 'p item list" where
  "chunk_items s ids = map (\<lambda>i. Records (query_range (table s) i (i + chunksize s))) ids @ [PyNone]"

definition pending :: "'p reader \<Rightarrow> 'p item list" where
  "pending s =
     (case producer s of
        Start \<Rightarrow>
          (case max_id s of
             None \<Rightarrow> []
           | Some m \<Rightarrow> (case py_range 0 m (chunksize s) of Inl e \<Rightarrow> [] | Inr ids \<Rightarrow> chunk_items s ids))
      | Loop ids \<Rightarrow> chunk_items s ids
      | Put recs ids \<Rightarrow> Records recs # chunk_items s ids
      | PutNone \<Rightarrow> [PyNone]
      | Returned \<Rightarrow> []
      | Raised e \<Rightarrow> [])"

definition range_queries :: "'p reader \<Rightarrow> int list \<Rightarrow> query list" where
  "range_queries s ids = map (\<lambda>i. Range i (i + chunksize s)) ids"

definition pending_queries :: "'p reader \<Rightarrow> query list" where
  "pending_queries s =
     (case producer s of
        Start \<Rightarrow>
          (case max_id s of
             None \<Rightarrow> []
           | Some m \<Rightarrow> (case py_range 0 m (chunksize s) of Inl e \<Rightarrow> [] | Inr ids \<Rightarrow> range_queries s ids))
      | Loop ids \<Rightarrow> range_queries s ids
      | Put recs ids \<Rightarrow> range_queries s ids
      | PutNone \<Rightarrow> []
      | Returned \<Rightarrow> []
      | Raised e \<Rightarrow> [])"

text \<open>Running the two threads under a given schedule; \<open>None\<close> when a scheduled thread cannot move.\<close>

datatype thread = Producer | Consumer

fun exec :: "thread list \<Rightarrow> 'p reader \<Rightarrow> 'p reader option" where
  "exec [] s = Some s"
| "exec (Producer # sched) s = (case run_step s of None \<Rightarrow> None | Some s' \<Rightarrow> exec sched s')"
| "exec (Consumer # sched) s = (case iter_step s of None \<Rightarrow> None | Some s' \<Rightarrow> exec sched s')"

text \<open>Concrete tables and schedules used as inputs.\<close>

definition three_rows :: "string row list" where
  "three_rows = [\<lparr>row_id = 1, row_data = ''a''\<rparr>, \<lparr>row_id = 2000, row_data = ''c''\<rparr>,
                 \<lparr>row_id = 1000, row_data = ''b''\<rparr>]"

definition drain_schedule :: "thread list" where
  "drain_schedule = [Producer, Producer, Producer, Producer, Producer, Producer, Producer,
                     Consumer, Consumer, Consumer]"

definition hundred_batches :: "unit row list" where
  "hundred_batches = [\<lparr>row_id = 100, row_data = ()\<rparr>]"

definition producer_only :: "thread list" where
  "producer_only = [Producer, Producer, Producer, Producer, Producer, Producer,
                    Producer, Producer, Producer, Producer, Producer, Producer]"

section \<open>Pipeline modules: readiness and invalidation\<close>

text \<open>
  What \<open>finished_jobs()\<close> of a module returns, as a lookup by job id: the time the job
  finished (\<open>None\<close> when unset) and whether it succeeded. \<open>'k\<close> is the type of job ids and
  timestamps that identify records, \<open>'t\<close> the linearly ordered type of times.
\<close>

type_synonym ('k, 't) finished_jobs = "'k \<Rightarrow> ('t option \<times> bool) option"

subsection \<open>ExperimentPipelineModule.ready_jobs (multipatch/experiment.py)\<close>

text \<open>
  An \<open>Experiment\<close> object as \<open>ready_jobs\<close> uses it. Its class is outside the sources:
  building it and reading any of its three properties may raise. \<open>last_modification_time\<close>
  and \<open>slice_timestamp\<close> are read inside the \<open>try\<close> block, \<open>timestamp\<close> after it.
\<close>

record ('k, 't) expt =
  last_modification_time :: "py_error + 't"
  slice_timestamp :: "py_error + 'k"
  timestamp :: "py_error + 'k"

text \<open>
  Python's \<open>max\<close> of two values. Comparing two values whose types do not compare (a
  number with a date, a date with a time zone with one without) raises \<open>TypeError\<close>;
  \<open>comparable\<close> says which pairs compare.
\<close>

definition py_max :: "('t \<Rightarrow> 't \<Rightarrow> bool) \<Rightarrow> 't::linorder \<Rightarrow> 't \<Rightarrow> py_error + 't" where
  "py_max comparable a b = (if comparable a b then Inr (max a b) else Inl TypeError)"

text \<open>
  The \<open>try\<close> block for one site: \<open>Experiment site_path\<close> is the constructor call.
  Unpacking the \<open>None\<close> that \<open>finished_slices.get(slice_ts, None)\<close> returns for an unknown
  slice raises \<open>TypeError\<close>.
\<close>

definition inspect_site ::
    "('k, 't) finished_jobs \<Rightarrow> (string \<Rightarrow> py_error + ('k, 't) expt) \<Rightarrow> string \<Rightarrow>
     py_error + (('k, 't) expt \<times> 't \<times> 't option \<times> bool)" where
  "inspect_site finished_slices Experiment site_path =
     (case Experiment site_path of
        Inl e \<Rightarrow> Inl e
      | Inr expt \<Rightarrow>
          (case last_modification_time expt of
             Inl e \<Rightarrow> Inl e
           | Inr raw_data_mtime \<Rightarrow>
               (case slice_timestamp expt of
                  Inl e \<Rightarrow> Inl e
                | Inr slice_ts \<Rightarrow>
                    (case finished_slices slice_ts of
                       None \<Rightarrow> Inl TypeError
                     | Some (slice_mtime, slice_success) \<Rightarrow>
                         Inr (expt, raw_data_mtime, slice_mtime, slice_success)))))"

text \<open>
  The loop over the discovered sites, with the ordered dictionary \<open>ready\<close> as an
  association list in insertion order and the counter \<open>n_errors\<close>. The assignment
  \<open>ready[expt.timestamp] = max(raw_data_mtime, slice_mtime)\<close> stands after the \<open>try\<close>
  block: it evaluates \<open>max\<close> first, then \<open>expt.timestamp\<close>, and an exception raised by
  either leaves the loop and the function.
\<close>

fun check_experiments ::
    "('t \<Rightarrow> 't \<Rightarrow> bool) \<Rightarrow> ('k, 't::linorder) finished_jobs \<Rightarrow>
     (string \<Rightarrow> py_error + ('k, 't) expt) \<Rightarrow> string list \<Rightarrow>
     ('k \<times> 't) list \<times> nat \<Rightarrow> py_error + ('k \<times> 't) list \<times> nat" where
  "check_experiments comparable finished_slices Experiment [] (ready, n_errors) =
     Inr (ready, n_errors)"
| "check_experiments comparable finished_slices Experiment (site_path # rest) (ready, n_errors) =
     (case inspect_site finished_slices Experiment site_path of
        Inl e \<Rightarrow> check_experiments comparable finished_slices Experiment rest (ready, n_errors + 1)
      | Inr (expt, raw_data_mtime, slice_mtime, slice_success) \<Rightarrow>
          (case slice_mtime of
             None \<Rightarrow> check_experiments comparable finished_slices Experiment rest (ready, n_errors)
           | Some mtime \<Rightarrow>
               if slice_success = False
               then check_experiments comparable finished_slices Experiment rest (ready, n_errors)
               else (case py_max comparable raw_data_mtime mtime of
                       Inl e \<Rightarrow> Inl e
                     | Inr dep_time \<Rightarrow>
                         (case timestamp expt of
                            Inl e \<Rightarrow> Inl e
                          | Inr job_id \<Rightarrow>
                              check_experiments comparable finished_slices Experiment rest
                                (AList.update job_id dep_time ready, n_errors)))))"

text \<open>
  The sites discovered: for every storage path of a slice record, in order, the site
  directories below it that hold a \<open>pipettes.yml\<close> (what \<open>glob\<close> finds, with \<open>dirname\<close>
  applied).
\<close>

definition discovered_sites :: "(string \<Rightarrow> string list) \<Rightarrow> string list \<Rightarrow> string list" where
  "discovered_sites glob slices = concat (map glob slices)"

definition ready_jobs_run ::
    "('t \<Rightarrow> 't \<Rightarrow> bool) \<Rightarrow> ('k, 't::linorder) finished_jobs \<Rightarrow> string list \<Rightarrow>
     (string \<Rightarrow> string list) \<Rightarrow> (string \<Rightarrow> py_error + ('k, 't) expt) \<Rightarrow>
     py_error + ('k \<times> 't) list \<times> nat" where
  "ready_jobs_run comparable finished_slices slices glob Experiment =
     check_experiments comparable finished_slices Experiment (discovered_sites glob slices) ([], 0)"

text \<open>\<open>ready_jobs\<close> returns the dictionary; the counter is only printed.\<close>

definition ready_jobs ::
    "('t \<Rightarrow> 't \<Rightarrow> bool) \<Rightarrow> ('k, 't::linorder) finished_jobs \<Rightarrow> string list \<Rightarrow>
     (string \<Rightarrow> string list) \<Rightarrow> (string \<Rightarrow> py_error + ('k, 't) expt) \<Rightarrow>
     py_error + ('k \<times> 't) list" where
  "ready_jobs comparable finished_slices slices glob Experiment =
     (case ready_jobs_run comparable finished_slices slices glob Experiment of
        Inl e \<Rightarrow> Inl e
      | Inr (ready, n_errors) \<Rightarrow> Inr ready)"

text \<open>
  Following the specification's words: the job a site makes ready and its dependency
  time. The raw source exists and loads, its job id, modification time and slice
  timestamp can be read, the slice it names has a success record with a finish time, and
  the dependency time is the later of the source's modification time and the time the
  slice finished.
\<close>

definition spec_ready_entry ::
    "('t \<Rightarrow> 't \<Rightarrow> bool) \<Rightarrow> ('k, 't::linorder) finished_jobs \<Rightarrow>
     (string \<Rightarrow> py_error + ('k, 't) expt) \<Rightarrow> string \<Rightarrow> ('k \<times> 't) option" where
  "spec_ready_entry comparable finished_slices Experiment site_path =
     (case Experiment site_path of
        Inl e \<Rightarrow> None
      | Inr expt \<Rightarrow>
          (case (last_modification_time expt, slice_timestamp expt, timestamp expt) of
             (Inr mtime, Inr slice_ts, Inr job_id) \<Rightarrow>
               (case finished_slices slice_ts of
                  Some (Some finished_time, True) \<Rightarrow>
                    if comparable mtime finished_time
                    then Some (job_id, max mtime finished_time) else None
                | _ \<Rightarrow> None)
           | _ \<Rightarrow> None))"

text \<open>
  What the body of the loop does with one site: it counts an error, goes on without a
  change, stores a dependency time under a job id, or lets an exception out.
\<close>

datatype ('k, 't) site_effect = Counted | Passed | Stored 'k 't | Propagated py_error

definition site_effect ::
    "('t \<Rightarrow> 't \<Rightarrow> bool) \<Rightarrow> ('k, 't::linorder) finished_jobs \<Rightarrow>
     (string \<Rightarrow> py_error + ('k, 't) expt) \<Rightarrow> string \<Rightarrow> ('k, 't) site_effect" where
  "site_effect comparable finished_slices Experiment site_path =
     (case inspect_site finished_slices Experiment site_path of
        Inl e \<Rightarrow> Counted
      | Inr (expt, raw_data_mtime, slice_mtime, slice_success) \<Rightarrow>
          (case slice_mtime of
             None \<Rightarrow> Passed
           | Some mtime \<Rightarrow>
               if slice_success = False then Passed
               else (case py_max comparable raw_data_mtime mtime of
                       Inl e \<Rightarrow> Propagated e
                     | Inr dep_time \<Rightarrow>
                         (case timestamp expt of
                            Inl e \<Rightarrow> Propagated e
                          | Inr job_id \<Rightarrow> Stored job_id dep_time))))"

text \<open>
  The exception that leaves the loop over the sites, if any: that of the first site
  whose effect is to let one out.
\<close>

fun first_escape ::
    "('t \<Rightarrow> 't \<Rightarrow> bool) \<Rightarrow> ('k, 't::linorder) finished_jobs \<Rightarrow>
     (string \<Rightarrow> py_error + ('k, 't) expt) \<Rightarrow> string list \<Rightarrow> py_error option" where
  "first_escape comparable finished_slices Experiment [] = None"
| "first_escape comparable finished_slices Experiment (site_path # rest) =
     (case site_effect comparable finished_slices Experiment site_path of
        Propagated e \<Rightarrow> Some e
      | _ \<Rightarrow> first_escape comparable finished_slices Experiment rest)"

subsection \<open>OptoExperimentPipelineModule.ready_jobs (opto/opto_experiment.py)\<close>

text \<open>
  A row of the experiment CSV (\<open>csv_experiment\<close> is its column \<open>experiment\<close>), and the
  experiment object the loader builds from it.
\<close>

record csv_row =
  csv_experiment :: string
  site_path :: string
  rig_name :: string

record ('k, 's, 't) ai_experiment =
  ex_last_modification_time :: "py_error + 't"
  ex_slice_timestamp :: "py_error + 's option"
  ext_id :: "py_error + 'k"

text \<open>
  The file system, the loaders and the string operations the loop calls:
  \<open>cnx_json_path\<close> joins \<open>config.connections_dir\<close> with the experiment name,
  \<open>phys_site_path\<close> builds the site directory from the rig name and the site path,
  \<open>slice_path_name\<close> is the name of the directory above it relative to the data root,
  \<open>load_file\<close> and \<open>load_site\<close> build the \<open>AI_Experiment\<close>, \<open>format_ts\<close> is
  \<open>'%.3f' % slice_ts\<close>, \<open>zero_ts\<close> is \<open>0.0\<close>, and \<open>times_compare\<close> says which
  times \<open>max\<close> can compare.
\<close>

record ('k, 's, 't) opto_env =
  cnx_json_path :: "string \<Rightarrow> string"
  phys_site_path :: "string \<Rightarrow> string \<Rightarrow> string"
  path_exists :: "string \<Rightarrow> bool"
  slice_path_name :: "string \<Rightarrow> py_error + string"
  load_file :: "string \<Rightarrow> csv_row \<Rightarrow> py_error + ('k, 's, 't) ai_experiment"
  load_site :: "string \<Rightarrow> csv_row \<Rightarrow> py_error + ('k, 's, 't) ai_experiment"
  format_ts :: "'s \<Rightarrow> string"
  zero_ts :: 's
  times_compare :: "'t \<Rightarrow> 't \<Rightarrow> bool"

text \<open>
  How the \<open>try\<close> block ends when it does not raise: at one of its two \<open>continue\<close>
  statements, or at its end with the values the rest of the loop body reads.
\<close>

datatype ('k, 's, 't) opto_outcome =
    FileNotFound string
  | SliceNotInDb
  | Inspected string "('k, 's, 't) ai_experiment" 't "'t option" "bool option"

definition opto_lookup ::
    "('k, 's, 't) opto_env \<Rightarrow> (string, 't) finished_jobs \<Rightarrow> string \<Rightarrow> ('k, 's, 't) ai_experiment \<Rightarrow>
     py_error + ('k, 's, 't) opto_outcome" where
  "opto_lookup env finished_slices source ex =
     (case ex_last_modification_time ex of
        Inl e \<Rightarrow> Inl e
      | Inr raw_data_mtime \<Rightarrow>
          (case ex_slice_timestamp ex of
             Inl e \<Rightarrow> Inl e
           | Inr ts \<Rightarrow>
               (let slice_ts = (case ts of None \<Rightarrow> zero_ts env | Some v \<Rightarrow> v);
                    (slice_mtime, slice_success) =
                       (case finished_slices (format_ts env slice_ts) of
                          None \<Rightarrow> (None, None)
                        | Some (m, s) \<Rightarrow> (m, Some s))
                in Inr (Inspected source ex raw_data_mtime slice_mtime slice_success))))"

definition opto_inspect ::
    "('k, 's, 't) opto_env \<Rightarrow> (string, 't) finished_jobs \<Rightarrow> string list \<Rightarrow> csv_row \<Rightarrow>
     py_error + ('k, 's, 't) opto_outcome" where
  "opto_inspect env finished_slices slice_paths row =
     (if site_path row = ''''
      then (let cnx_json = cnx_json_path env (csv_experiment row)
            in if \<not> path_exists env cnx_json then Inr (FileNotFound cnx_json)
               else (case load_file env cnx_json row of
                       Inl e \<Rightarrow> Inl e
                     | Inr ex \<Rightarrow> opto_lookup env finished_slices cnx_json ex))
      else (let source = phys_site_path env (rig_name row) (site_path row)
            in case slice_path_name env source of
                 Inl e \<Rightarrow> Inl e
               | Inr slice_path \<Rightarrow>
                   if slice_path \<notin> set slice_paths then Inr SliceNotInDb
                   else (case load_site env source row of
                           Inl e \<Rightarrow> Inl e
                         | Inr ex \<Rightarrow> opto_lookup env finished_slices source ex)))"

text \<open>
  What \<open>n_errors\<close> holds for an experiment: the message of the first \<open>continue\<close>, or the
  exception caught.
\<close>

datatype error_note = Message string | Caught py_error

text \<open>
  The loop over the CSV rows with its three accumulators: the ordered dictionary \<open>ready\<close>
  (job id to dependency time and source), the dictionary \<open>n_errors\<close> and the list
  \<open>n_no_slice\<close>. The assignment to \<open>ready[ex.ext_id]\<close> stands after the \<open>try\<close> block:
  it evaluates \<open>max\<close> first, then \<open>ex.ext_id\<close>, and an exception raised by either leaves
  the loop and the function.
\<close>

fun check_opto ::
    "('k, 's, 't::linorder) opto_env \<Rightarrow> (string, 't) finished_jobs \<Rightarrow> string list \<Rightarrow> csv_row list \<Rightarrow>
     ('k \<times> 't \<times> string) list \<times> (string \<times> error_note) list \<times> string list \<Rightarrow>
     py_error + ('k \<times> 't \<times> string) list \<times> (string \<times> error_note) list \<times> string list" where
  "check_opto env finished_slices slice_paths [] acc = Inr acc"
| "check_opto env finished_slices slice_paths (row # rest) (ready, n_errors, n_no_slice) =
     (case opto_inspect env finished_slices slice_paths row of
        Inl exc \<Rightarrow>
          check_opto env finished_slices slice_paths rest
            (ready, AList.update (csv_experiment row) (Caught exc) n_errors, n_no_slice)
      | Inr (FileNotFound cnx_json) \<Rightarrow>
          check_opto env finished_slices slice_paths rest
            (ready, AList.update (csv_experiment row) (Message (''File not found: '' @ cnx_json)) n_errors,
             n_no_slice)
      | Inr SliceNotInDb \<Rightarrow>
          check_opto env finished_slices slice_paths rest
            (ready, n_errors, n_no_slice @ [csv_experiment row])
      | Inr (Inspected source ex raw_data_mtime slice_mtime slice_success) \<Rightarrow>
          (case slice_mtime of
             None \<Rightarrow>
               check_opto env finished_slices slice_paths rest
                 (ready, n_errors, n_no_slice @ [csv_experiment row])
           | Some mtime \<Rightarrow>
               if slice_success = Some False
               then check_opto env finished_slices slice_paths rest
                      (ready, n_errors, n_no_slice @ [csv_experiment row])
               else (case py_max (times_compare env) raw_data_mtime mtime of
                       Inl e \<Rightarrow> Inl e
                     | Inr dep_time \<Rightarrow>
                         (case ext_id ex of
                            Inl e \<Rightarrow> Inl e
                          | Inr job_id \<Rightarrow>
                              check_opto env finished_slices slice_paths rest
                                (AList.update job_id (dep_time, source) ready,
                                 n_errors, n_no_slice)))))"

definition opto_ready_jobs_run ::
    "('k, 's, 't::linorder) opto_env \<Rightarrow> (string, 't) finished_jobs \<Rightarrow> string list \<Rightarrow> csv_row list \<Rightarrow>
     py_error + ('k \<times> 't \<times> string) list \<times> (string \<times> error_note) list \<times> string list" where
  "opto_ready_jobs_run env finished_slices slice_paths expt_list =
     check_opto env finished_slices slice_paths expt_list ([], [], [])"

definition opto_ready_jobs ::
    "('k, 's, 't::linorder) opto_env \<Rightarrow> (string, 't) finished_jobs \<Rightarrow> string list \<Rightarrow> csv_row list \<Rightarrow>
     py_error + ('k \<times> 't \<times> string) list" where
  "opto_ready_jobs env finished_slices slice_paths expt_list =
     (case opto_ready_jobs_run env finished_slices slice_paths expt_list of
        Inl e \<Rightarrow> Inl e
      | Inr (ready, n_errors, n_no_slice) \<Rightarrow> Inr ready)"

text \<open>
  What the body of the opto loop does with one row: it notes an error, lists the
  experiment as lacking a slice, stores a dependency time and source under a job id, or
  lets an exception out.
\<close>

datatype ('k, 't) row_effect = Noted error_note | Listed | Kept 'k 't string | Escaped py_error

definition row_effect ::
    "('k, 's, 't::linorder) opto_env \<Rightarrow> (string, 't) finished_jobs \<Rightarrow> string list \<Rightarrow> csv_row \<Rightarrow>
     ('k, 't) row_effect" where
  "row_effect env finished_slices slice_paths row =
     (case opto_inspect env finished_slices slice_paths row of
        Inl exc \<Rightarrow> Noted (Caught exc)
      | Inr (FileNotFound cnx_json) \<Rightarrow> Noted (Message (''File not found: '' @ cnx_json))
      | Inr SliceNotInDb \<Rightarrow> Listed
      | Inr (Inspected source ex raw_data_mtime slice_mtime slice_success) \<Rightarrow>
          (case slice_mtime of
             None \<Rightarrow> Listed
           | Some mtime \<Rightarrow>
               if slice_success = Some False then Listed
               else (case py_max (times_compare env) raw_data_mtime mtime of
                       Inl e \<Rightarrow> Escaped e
                     | Inr dep_time \<Rightarrow>
                         (case ext_id ex of
                            Inl e \<Rightarrow> Escaped e
                          | Inr job_id \<Rightarrow> Kept job_id dep_time source))))"

fun opto_first_escape ::
    "('k, 's, 't::linorder) opto_env \<Rightarrow> (string, 't) finished_jobs \<Rightarrow> string list \<Rightarrow> csv_row list \<Rightarrow>
     py_error option" where
  "opto_first_escape env finished_slices slice_paths [] = None"
| "opto_first_escape env finished_slices slice_paths (row # rest) =
     (case row_effect env finished_slices slice_paths row of
        Escaped e \<Rightarrow> Some e
      | _ \<Rightarrow> opto_first_escape env finished_slices slice_paths rest)"

subsection \<open>dependent_job_ids\<close>

datatype pipeline_class =
    SlicePipelineModule
  | ExperimentPipelineModule
  | DatasetPipelineModule
  | PulseResponsePipelineModule
  | OptoSlicePipelineModule
  | OptoExperimentPipelineModule

text \<open>A module object: its class (what \<open>type(module)\<close> returns) and how it prints.\<close>

record pipeline_module =
  module_type :: pipeline_class
  module_str :: string

text \<open>The rows of the slice and experiment tables, with the columns the query reads.\<close>

record 'k slice_row =
  slice_id :: int
  slice_acq_timestamp :: 'k

record 'k experiment_row =
  experiment_slice_id :: "int option"
  acq_timestamp :: 'k
  experiment_ext_id :: 'k

text \<open>
  \<open>session.query(column).join(db.Slice).filter(db.Slice.acq_timestamp.in_(job_ids)).all()\<close>:
  the inner join of the experiment table with the slice table along the foreign key.
\<close>

definition join_slice_query ::
    "('k experiment_row \<Rightarrow> 'k) \<Rightarrow> 'k experiment_row list \<Rightarrow> 'k slice_row list \<Rightarrow> 'k list \<Rightarrow> 'k list" where
  "join_slice_query column experiments slices job_ids =
     concat (map (\<lambda>e. map (\<lambda>s. column e)
                          (filter (\<lambda>s. experiment_slice_id e = Some (slice_id s) \<and>
                                       slice_acq_timestamp s \<in> set job_ids) slices))
                 experiments)"

definition experiment_dependencies :: "pipeline_class list" where
  "experiment_dependencies = [SlicePipelineModule]"

definition opto_experiment_dependencies :: "pipeline_class list" where
  "opto_experiment_dependencies = [OptoSlicePipelineModule]"

text \<open>\<open>ExperimentPipelineModule.dependent_job_ids\<close>\<close>

definition dependent_job_ids ::
    "pipeline_module \<Rightarrow> 'k experiment_row list \<Rightarrow> 'k slice_row list \<Rightarrow> pipeline_module \<Rightarrow> 'k list \<Rightarrow>
     py_error + 'k list" where
  "dependent_job_ids self experiments slices module job_ids =
     (if module_type module \<notin> set experiment_dependencies
      then Inl (ValueError (module_str self @ '' does not depend on module '' @ module_str module))
      else Inr (join_slice_query acq_timestamp experiments slices job_ids))"

text \<open>
  \<open>OptoExperimentPipelineModule.dependent_job_ids\<close>: the message of its error names
  \<open>cls\<close>, which is not defined in the method, so building it raises \<open>NameError\<close>.
\<close>

definition opto_dependent_job_ids ::
    "pipeline_module \<Rightarrow> 'k experiment_row list \<Rightarrow> 'k slice_row list \<Rightarrow> pipeline_module \<Rightarrow> 'k list \<Rightarrow>
     py_error + 'k list" where
  "opto_dependent_job_ids self experiments slices module job_ids =
     (if module_type module \<notin> set opto_experiment_dependencies
      then Inl (NameError ''cls'')
      else Inr (join_slice_query experiment_ext_id experiments slices job_ids))"

subsection \<open>Concrete pipeline inputs\<close>

text \<open>Times that all compare with each other.\<close>

definition all_comparable :: "int \<Rightarrow> int \<Rightarrow> bool" where
  "all_comparable a b = True"

text \<open>
  The scenario of the specification: slice job \<open>2020-01-01_0\<close> finished at time 1000
  with success. Under the slice are three sites: one that loads with the job id of the
  scenario, one that does not load, and one on a second job id.
\<close>

definition scenario_finished :: "(string, int) finished_jobs" where
  "scenario_finished = (\<lambda>k. if k = ''2020-01-01_0'' then Some (Some 1000, True) else None)"

definition scenario_glob :: "string \<Rightarrow> string list" where
  "scenario_glob path =
     (if path = ''slice_0'' then [''slice_0/site_0'', ''slice_0/site_1'', ''slice_0/site_2''] else [])"

definition scenario_load :: "string \<Rightarrow> py_error + (string, int) expt" where
  "scenario_load site =
     (if site = ''slice_0/site_0''
      then Inr \<lparr>last_modification_time = Inr 900, slice_timestamp = Inr ''2020-01-01_0'',
                timestamp = Inr ''2020-01-01_0''\<rparr>
      else if site = ''slice_0/site_2''
      then Inr \<lparr>last_modification_time = Inr 1200, slice_timestamp = Inr ''2020-01-01_0'',
                timestamp = Inr ''2020-01-01_2''\<rparr>
      else Inl (Exception ''cannot load site''))"



text \<open>
  A site whose source loads and whose slice is finished, but whose \<open>timestamp\<close> cannot be
  read, followed by a site with nothing wrong.
\<close>

definition unreadable_id_glob :: "string \<Rightarrow> string list" where
  "unreadable_id_glob path =
     (if path = ''slice_0'' then [''slice_0/site_0'', ''slice_0/site_1''] else [])"

definition unreadable_id_load :: "string \<Rightarrow> py_error + (string, int) expt" where
  "unreadable_id_load site =
     (if site = ''slice_0/site_0''
      then Inr \<lparr>last_modification_time = Inr 900, slice_timestamp = Inr ''2020-01-01_0'',
                timestamp = Inl (KeyError ''__timestamp__'')\<rparr>
      else Inr \<lparr>last_modification_time = Inr 900, slice_timestamp = Inr ''2020-01-01_0'',
                timestamp = Inr ''2020-01-01_1''\<rparr>)"

text \<open>
  The same for the opto module, with CSV rows read from connection files: \<open>expt_a\<close> and
  \<open>expt_c\<close> load and are ready, \<open>expt_b\<close> does not load, and \<open>expt_d\<close> loads but its
  \<open>ext_id\<close> cannot be read.
\<close>

definition scenario_env :: "(string, int, int) opto_env" where
  "scenario_env =
     \<lparr>cnx_json_path = (\<lambda>name. ''connections/'' @ name),
      phys_site_path = (\<lambda>rig path. ''data/'' @ rig @ ''/phys/'' @ path),
      path_exists = (\<lambda>path. True),
      slice_path_name = (\<lambda>path. Inr ''slice_0''),
      load_file = (\<lambda>path row.
         if csv_experiment row = ''expt_a''
         then Inr \<lparr>ex_last_modification_time = Inr 900, ex_slice_timestamp = Inr (Some 5),
                   ext_id = Inr ''expt_a''\<rparr>
         else if csv_experiment row = ''expt_c''
         then Inr \<lparr>ex_last_modification_time = Inr 1200, ex_slice_timestamp = Inr (Some 5),
                   ext_id = Inr ''expt_c''\<rparr>
         else if csv_experiment row = ''expt_d''
         then Inr \<lparr>ex_last_modification_time = Inr 900, ex_slice_timestamp = Inr (Some 5),
                   ext_id = Inl (KeyError ''ext_id'')\<rparr>
         else Inl (Exception ''cannot load'')),
      load_site = (\<lambda>path row. Inl (Exception ''cannot load'')),
      format_ts = (\<lambda>ts. if ts = 5 then ''5.000'' else ''0.000''),
      zero_ts = 0,
      times_compare = (\<lambda>a b. True)\<rparr>"

definition scenario_opto_finished :: "(string, int) finished_jobs" where
  "scenario_opto_finished = (\<lambda>k. if k = ''5.000'' then Some (Some 1000, True) else None)"

definition csv_row_named :: "string \<Rightarrow> csv_row" where
  "csv_row_named name = \<lparr>csv_experiment = name, site_path = [], rig_name = ''rig1''\<rparr>"

text \<open>The modules and tables of the invalidation scenario.\<close>

definition scenario_slice_module :: pipeline_module where
  "scenario_slice_module = \<lparr>module_type = SlicePipelineModule, module_str = ''slice''\<rparr>"

definition scenario_experiment_module :: pipeline_module where
  "scenario_experiment_module = \<lparr>module_type = ExperimentPipelineModule, module_str = ''experiment''\<rparr>"

definition scenario_slices :: "string slice_row list" where
  "scenario_slices = [\<lparr>slice_id = 1, slice_acq_timestamp = ''2020-01-01_0''\<rparr>,
                      \<lparr>slice_id = 2, slice_acq_timestamp = ''2020-01-02_0''\<rparr>]"

definition scenario_experiments :: "string experiment_row list" where
  "scenario_experiments =
     [\<lparr>experiment_slice_id = Some 1, acq_timestamp = ''2020-01-01_0'', experiment_ext_id = ''2020-01-01_0''\<rparr>,
      \<lparr>experiment_slice_id = Some 2, acq_timestamp = ''2020-01-02_1'', experiment_ext_id = ''2020-01-02_1''\<rparr>,
      \<lparr>experiment_slice_id = None, acq_timestamp = ''2020-01-03_0'', experiment_ext_id = ''2020-01-03_0''\<rparr>]"

section \<open>Engine manager: invariant\<close>

lemma engines_wf_unloaded: "engines_wf unloaded"
  by (simp add: engines_wf_def unloaded_def)

lemma engines_wf_dispose: "engines_wf (dispose_engines st)"
  by (simp add: engines_wf_def dispose_engines_def Let_def split: option.splits)

lemma engines_wf_init: "engines_wf (init_engines cfg pid st)"
  by (simp add: engines_wf_def init_engines_def dispose_engines_def create_engine_def Let_def
      split: option.splits)

lemma engines_wf_module_import: "engines_wf (module_import cfg pid)"
  using engines_wf_init [of cfg pid unloaded]
  by (simp add: module_import_def engines_wf_def split: option.splits)

lemma engines_wf_get_engines: "engines_wf st \<Longrightarrow> engines_wf (snd (get_engines cfg pid st))"
  by (simp add: get_engines_def Let_def engines_wf_init engines_wf_dispose)


lemma dispose_fields:
  "engine_ro (dispose_engines st) = None"
  "engine_rw (dispose_engines st) = None"
  "engine_pid (dispose_engines st) = None"
  "next_engine_id (dispose_engines st) = next_engine_id st"
  "ddl_log (dispose_engines st) = ddl_log st"
  "disposed (dispose_engines st) =
     disposed st @ (case engine_ro st of None \<Rightarrow> [] | Some e \<Rightarrow> [e])
                 @ (case engine_rw st of None \<Rightarrow> [] | Some e \<Rightarrow> [e])"
  by (simp_all add: dispose_engines_def Let_def split: option.splits)

lemma dispose_sessionmakers:
  "sessionmakers_wf st \<Longrightarrow>
     sessionmaker_ro (dispose_engines st) = None \<and> sessionmaker_rw (dispose_engines st) = None"
  by (auto simp add: dispose_engines_def sessionmakers_wf_def Let_def split: option.splits)

lemma sessionmakers_wf_module_import: "sessionmakers_wf (module_import cfg pid)"
  by (simp add: sessionmakers_wf_def module_import_def)

lemma sessionmakers_wf_dispose: "sessionmakers_wf st \<Longrightarrow> sessionmakers_wf (dispose_engines st)"
  using dispose_sessionmakers [of st] by (simp add: sessionmakers_wf_def)

lemma sessionmakers_wf_init: "sessionmakers_wf st \<Longrightarrow> sessionmakers_wf (init_engines cfg pid st)"
  using dispose_sessionmakers [of st]
  by (simp add: sessionmakers_wf_def init_engines_def create_engine_def Let_def split: option.splits)

lemma sessionmakers_wf_get_engines:
  "sessionmakers_wf st \<Longrightarrow> sessionmakers_wf (snd (get_engines cfg pid st))"
  by (simp add: get_engines_def Let_def sessionmakers_wf_init sessionmakers_wf_dispose)

lemma get_engines_returns_globals:
  "fst (get_engines cfg pid st) =
     (engine_ro (snd (get_engines cfg pid st)), engine_rw (snd (get_engines cfg pid st)))"
  by (simp add: get_engines_def Let_def)

lemma sessionmakers_wf_Session:
  assumes "sessionmakers_wf st"
  shows "sessionmakers_wf (snd (Session cfg pid readonly st))"
proof -
  obtain ro rw st0 where g: "get_engines cfg pid st = ((ro, rw), st0)"
    by (metis prod.exhaust)
  with get_engines_returns_globals [of cfg pid st]
  have eq: "engine_ro st0 = ro" "engine_rw st0 = rw" by simp_all
  from sessionmakers_wf_get_engines [OF assms, of cfg pid] g
  have wf0: "sessionmakers_wf st0" by simp
  have ro: "ro \<noteq> None"
    using g by (auto simp add: get_engines_def init_engines_def create_engine_def Let_def
        split: option.splits if_splits)
  from wf0 eq ro show ?thesis
    unfolding Session_def g
    by (auto simp add: sessionmakers_wf_def Let_def split: option.splits)
qed

lemma get_engines_rw_configured:
  "db_address_rw cfg \<noteq> None \<Longrightarrow> engine_rw st \<noteq> None \<Longrightarrow>
     snd (fst (get_engines cfg pid st)) \<noteq> None"
  by (auto simp add: get_engines_def init_engines_def dispose_fields create_engine_def Let_def
      split: option.splits)

lemma get_engines_ddl_log: "ddl_log (snd (get_engines cfg pid st)) = ddl_log st"
  by (auto simp add: get_engines_def init_engines_def dispose_fields create_engine_def Let_def
      split: option.splits)

section \<open>Fork safety of the engines\<close>

text \<open>
  C1. When the process id differs from the stored one, \<open>get_engines\<close> calls \<open>dispose()\<close> on
  the read-only and read-write engines it held (they are appended to the disposed
  engines), and returns engines built by this very call: the read-only engine carries
  the next unused object identity and differs from both engines held before, and so does
  the read-write engine, which exists exactly when a read-write address is configured.
  The globals hold the returned engines and the stored process id becomes the current
  one. When the process id equals the stored one, the engines held are returned and
  nothing changes.
\<close>

theorem get_engines_fork_safety:
  assumes wf: "engines_wf st"
  shows "(Some pid \<noteq> engine_pid st \<longrightarrow>
           (case get_engines cfg pid st of
              ((ro, rw), st') \<Rightarrow>
                disposed st' = disposed st @ (case engine_ro st of None \<Rightarrow> [] | Some e \<Rightarrow> [e])
                                           @ (case engine_rw st of None \<Rightarrow> [] | Some e \<Rightarrow> [e]) \<and>
                (\<exists>e. ro = Some e \<and> engine_id e = next_engine_id st \<and>
                     ro \<noteq> engine_ro st \<and> ro \<noteq> engine_rw st) \<and>
                (case db_address_rw cfg of
                   None \<Rightarrow> rw = None
                 | Some addr \<Rightarrow>
                     (\<exists>e. rw = Some e \<and> engine_id e = Suc (next_engine_id st) \<and>
                          rw \<noteq> engine_ro st \<and> rw \<noteq> engine_rw st)) \<and>
                engine_ro st' = ro \<and> engine_rw st' = rw \<and> engine_pid st' = Some pid)) \<and>
         (Some pid = engine_pid st \<longrightarrow>
            get_engines cfg pid st = ((engine_ro st, engine_rw st), st))"
  using wf
  by (auto simp add: get_engines_def init_engines_def dispose_fields create_engine_def Let_def
      engines_wf_def split: option.splits)

theorem get_engines_fork_safety_witness:
  "engines_wf (module_import cfg_readwrite 100) \<and>
   Some 101 \<noteq> engine_pid (module_import cfg_readwrite 100) \<and>
   map_option engine_id (engine_ro (module_import cfg_readwrite 100)) = Some 0 \<and>
   map_option engine_id (engine_rw (module_import cfg_readwrite 100)) = Some 1 \<and>
   map_option engine_id (fst (fst (get_engines cfg_readwrite 101 (module_import cfg_readwrite 100)))) = Some 2 \<and>
   map_option engine_id (snd (fst (get_engines cfg_readwrite 101 (module_import cfg_readwrite 100)))) = Some 3 \<and>
   map engine_id (disposed (snd (get_engines cfg_readwrite 101 (module_import cfg_readwrite 100)))) = [0, 1] \<and>
   Some 100 = engine_pid (module_import cfg_readwrite 100) \<and>
   map_option engine_id (fst (fst (get_engines cfg_readwrite 100 (module_import cfg_readwrite 100)))) = Some 0"
  using get_engines_fork_safety [OF engines_wf_module_import, of 101 cfg_readwrite 100 cfg_readwrite]
    get_engines_fork_safety [OF engines_wf_module_import, of 100 cfg_readwrite 100 cfg_readwrite]
  by (simp add: module_import_def get_engines_def init_engines_def dispose_engines_def
      create_engine_def unloaded_def engines_wf_def cfg_readwrite_def Let_def)

section \<open>Sessions without write access\<close>

text \<open>
  C7. With no read-write address configured and no read-write engine, \<open>Session(readonly=False)\<close>
  raises the error the specification calls NoWriteAccessError (in the source a
  \<open>RuntimeError\<close> with the message below). The error is returned to the caller together
  with a state that is exactly the one \<open>get_engines\<close> leaves, in which the read-only
  engine exists; \<open>Session(readonly=True)\<close> called afterwards (or instead) returns a session
  bound to that engine.
\<close>

theorem Session_no_write_access:
  assumes "db_address_rw cfg = None" and "engine_rw st = None" and "sessionmakers_wf st"
  shows "fst (Session cfg pid False st) =
           Inl (RuntimeError ''Cannot start read-write DB session; no write access engine is defined (see config.synphys_db_host_rw)'') \<and>
         snd (Session cfg pid False st) = snd (get_engines cfg pid st) \<and>
         (\<exists>e. engine_ro (snd (Session cfg pid False st)) = Some e \<and>
              fst (Session cfg pid True (snd (Session cfg pid False st))) = Inr (DbSession (Some e)) \<and>
              fst (Session cfg pid True st) = Inr (DbSession (Some e)))"
  using assms
  by (auto simp add: Session_def get_engines_def init_engines_def dispose_fields
      dispose_sessionmakers create_engine_def Let_def sessionmakers_wf_def split: option.splits)

theorem Session_no_write_access_witness:
  "db_address_rw cfg_readonly = None \<and>
   engine_rw (module_import cfg_readonly 100) = None \<and>
   sessionmakers_wf (module_import cfg_readonly 100) \<and>
   fst (Session cfg_readonly 100 False (module_import cfg_readonly 100)) =
     Inl (RuntimeError ''Cannot start read-write DB session; no write access engine is defined (see config.synphys_db_host_rw)'') \<and>
   map_option engine_id (engine_ro (snd (Session cfg_readonly 100 False (module_import cfg_readonly 100)))) = Some 0 \<and>
   isl (fst (Session cfg_readonly 100 True (snd (Session cfg_readonly 100 False (module_import cfg_readonly 100))))) = False"
proof -
  have a: "db_address_rw cfg_readonly = None"
    by (simp add: cfg_readonly_def)
  have b: "engine_rw (module_import cfg_readonly 100) = None"
    by (simp add: module_import_def init_engines_def dispose_engines_def create_engine_def
        unloaded_def cfg_readonly_def Let_def)
  have c: "map_option engine_id (engine_ro (snd (get_engines cfg_readonly 100 (module_import cfg_readonly 100)))) = Some 0"
    by (simp add: get_engines_def module_import_def init_engines_def dispose_engines_def
        create_engine_def unloaded_def cfg_readonly_def Let_def)
  show ?thesis
    using Session_no_write_access [OF a b sessionmakers_wf_module_import, of 100] a b c
      sessionmakers_wf_module_import [of cfg_readonly 100]
    by auto
qed

section \<open>Creating or verifying a table group\<close>

lemma verify_tables_find:
  "verify_tables names (Some ro) addr ks =
     (case find (\<lambda>k. k \<notin> set (names ro)) ks of
        None \<Rightarrow> Inr ()
      | Some k \<Rightarrow> Inl (Exception (''Table '' @ k @ '' not found in database '' @ addr)))"
  by (induction ks) simp_all

lemma group_tables_mapped:
  "\<forall>k\<in>set ks. map_of (mappings g) k = Some (OrmTable k) \<Longrightarrow>
     group_tables g ks = Inr (map OrmTable ks)"
  by (induction ks) (simp_all add: getitem_def)

lemma experiment_group_built:
  "TableGroup_init [''experiment'', ''electrode'', ''cell'', ''pair'']
     (Some [OrmTable ''experiment'', OrmTable ''electrode'', OrmTable ''cell'', OrmTable ''pair'']) =
   Inr experiment_group"
  by (simp add: TableGroup_init_def experiment_group_def)

lemma TableGroup_init_no_tables:
  "ks \<noteq> [] \<Longrightarrow> TableGroup_init ks None = Inl (NameError ''generate_mapping'')"
  by (simp add: TableGroup_init_def create_mappings_def)

lemma experiment_group_mapped:
  "\<forall>k\<in>set (schemas experiment_group). map_of (mappings experiment_group) k = Some (OrmTable k)"
  by (simp add: experiment_group_def)

text \<open>
  C8. Without a read-write engine, \<open>TableGroup.create_tables\<close> leaves the state as it is
  (no DDL is logged) and looks every declared table up in the tables of the read-only
  database, in declared order: it raises the error the specification calls
  SchemaMissingError (in the source an \<open>Exception\<close> whose message names the table) for the
  first declared table that is absent, and returns normally when none is. With a
  read-write engine (and a read-write address configured, each declared table mapped to
  its ORM class), it issues exactly one \<open>create_all\<close> batch on the read-write engine
  \<open>get_engines\<close> returns, holding the tables of the group in declared order.
\<close>

theorem TableGroup_create_tables_spec:
  "(engine_rw st = None \<and> engine_ro st = Some ro \<longrightarrow>
      TableGroup_create_tables cfg pid names g st =
        ((case find (\<lambda>k. k \<notin> set (names ro)) (schemas g) of
            None \<Rightarrow> Inr ()
          | Some k \<Rightarrow> Inl (Exception (''Table '' @ k @ '' not found in database '' @ db_address_ro cfg))),
         st)) \<and>
   (engine_rw st \<noteq> None \<and> db_address_rw cfg \<noteq> None \<and>
    (\<forall>k\<in>set (schemas g). map_of (mappings g) k = Some (OrmTable k)) \<longrightarrow>
      (\<exists>rw. engine_rw (snd (get_engines cfg pid st)) = Some rw \<and>
            TableGroup_create_tables cfg pid names g st =
              (Inr (), (snd (get_engines cfg pid st))
                         \<lparr>ddl_log := ddl_log st @ [CreateAll (Some rw) (Some (map OrmTable (schemas g)))]\<rparr>)))"
proof (intro conjI impI)
  assume "engine_rw st = None \<and> engine_ro st = Some ro"
  then show "TableGroup_create_tables cfg pid names g st =
        ((case find (\<lambda>k. k \<notin> set (names ro)) (schemas g) of
            None \<Rightarrow> Inr ()
          | Some k \<Rightarrow> Inl (Exception (''Table '' @ k @ '' not found in database '' @ db_address_ro cfg))),
         st)"
    by (simp add: TableGroup_create_tables_def verify_tables_find)
next
  assume a: "engine_rw st \<noteq> None \<and> db_address_rw cfg \<noteq> None \<and>
    (\<forall>k\<in>set (schemas g). map_of (mappings g) k = Some (OrmTable k))"
  then have gt: "group_tables g (schemas g) = Inr (map OrmTable (schemas g))"
    by (simp add: group_tables_mapped)
  from a obtain rw where rw: "snd (fst (get_engines cfg pid st)) = Some rw"
    using get_engines_rw_configured [of cfg st pid] by auto
  then have rw': "engine_rw (snd (get_engines cfg pid st)) = Some rw"
    by (simp add: get_engines_returns_globals)
  have "TableGroup_create_tables cfg pid names g st =
              (Inr (), (snd (get_engines cfg pid st))
                         \<lparr>ddl_log := ddl_log st @ [CreateAll (Some rw) (Some (map OrmTable (schemas g)))]\<rparr>)"
    using a gt rw get_engines_ddl_log [of cfg pid st]
    by (auto simp add: TableGroup_create_tables_def create_tables_def split: prod.splits)
  with rw' show "\<exists>rw. engine_rw (snd (get_engines cfg pid st)) = Some rw \<and>
            TableGroup_create_tables cfg pid names g st =
              (Inr (), (snd (get_engines cfg pid st))
                         \<lparr>ddl_log := ddl_log st @ [CreateAll (Some rw) (Some (map OrmTable (schemas g)))]\<rparr>)"
    by blast
qed

theorem TableGroup_create_tables_spec_witness:
  "engine_rw (module_import cfg_readonly 100) = None \<and>
   map_option engine_id (engine_ro (module_import cfg_readonly 100)) = Some 0 \<and>
   TableGroup_create_tables cfg_readonly 100 (\<lambda>e. [''slice'', ''experiment'']) experiment_group
       (module_import cfg_readonly 100) =
     (Inl (Exception ''Table electrode not found in database sqlite:///synphys.sqlite''),
      module_import cfg_readonly 100) \<and>
   TableGroup_create_tables cfg_readonly 100
       (\<lambda>e. [''pair'', ''cell'', ''electrode'', ''experiment'', ''slice'']) experiment_group
       (module_import cfg_readonly 100) =
     (Inr (), module_import cfg_readonly 100) \<and>
   engine_rw (module_import cfg_readwrite 100) \<noteq> None \<and>
   db_address_rw cfg_readwrite \<noteq> None \<and>
   fst (TableGroup_create_tables cfg_readwrite 100 (\<lambda>e. []) experiment_group
       (module_import cfg_readwrite 100)) = Inr () \<and>
   ddl_log (snd (TableGroup_create_tables cfg_readwrite 100 (\<lambda>e. []) experiment_group
       (module_import cfg_readwrite 100))) =
     [CreateAll (engine_rw (module_import cfg_readwrite 100))
        (Some [OrmTable ''experiment'', OrmTable ''electrode'', OrmTable ''cell'', OrmTable ''pair''])]"
proof -
  have ro: "engine_rw (module_import cfg_readonly 100) = None"
    "engine_ro (module_import cfg_readonly 100) =
       Some \<lparr>engine_id = 0, engine_url = ''sqlite:///synphys.sqlite'', engine_opts = []\<rparr>"
    by (simp_all add: module_import_def init_engines_def dispose_engines_def create_engine_def
        unloaded_def cfg_readonly_def Let_def)
  have rw: "engine_rw (module_import cfg_readwrite 100) \<noteq> None"
    "db_address_rw cfg_readwrite \<noteq> None"
    "engine_pid (module_import cfg_readwrite 100) = Some 100"
    "engine_ro (module_import cfg_readwrite 100) \<noteq> None"
    "ddl_log (module_import cfg_readwrite 100) = []"
    by (simp_all add: module_import_def init_engines_def dispose_engines_def create_engine_def
        unloaded_def cfg_readwrite_def Let_def)
  have same: "get_engines cfg_readwrite 100 (module_import cfg_readwrite 100) =
      ((engine_ro (module_import cfg_readwrite 100), engine_rw (module_import cfg_readwrite 100)),
       module_import cfg_readwrite 100)"
    using rw by (auto simp add: get_engines_def Let_def)
  have g: "schemas experiment_group = [''experiment'', ''electrode'', ''cell'', ''pair'']"
    by (simp add: experiment_group_def)
  have addr: "db_address_ro cfg_readonly = ''sqlite:///synphys.sqlite''"
    by (simp add: cfg_readonly_def)
  note t = TableGroup_create_tables_spec
  show ?thesis
    using t [where st = "module_import cfg_readonly 100" and cfg = cfg_readonly and pid = 100
        and g = experiment_group and names = "\<lambda>e. [''slice'', ''experiment'']"
        and ro = "\<lparr>engine_id = 0, engine_url = ''sqlite:///synphys.sqlite'', engine_opts = []\<rparr>"]
      t [where st = "module_import cfg_readonly 100" and cfg = cfg_readonly and pid = 100
        and g = experiment_group
        and names = "\<lambda>e. [''pair'', ''cell'', ''electrode'', ''experiment'', ''slice'']"
        and ro = "\<lparr>engine_id = 0, engine_url = ''sqlite:///synphys.sqlite'', engine_opts = []\<rparr>"]
      t [where st = "module_import cfg_readwrite 100" and cfg = cfg_readwrite and pid = 100
        and g = experiment_group and names = "\<lambda>e. []"]
      experiment_group_mapped ro rw same g addr
    by auto
qed

section \<open>The reader: steps, invariants and the functional reading\<close>

lemma reachable_trans:
  assumes "reachable s0 s" and "reachable s s'"
  shows "reachable s0 s'"
  using assms(2,1) by (induction rule: reachable.induct) (auto intro: reachable.intros)

lemma exec_reachable: "exec sched s = Some s' \<Longrightarrow> reachable s s'"
proof (induction sched arbitrary: s)
  case Nil
  then show ?case by (simp add: reachable.start)
next
  case (Cons th sched)
  show ?case
  proof (cases th)
    case Producer
    with Cons.prems obtain t where t: "run_step s = Some t" "exec sched t = Some s'"
      by (auto split: option.splits)
    from reachable.run [OF reachable.start t(1)] Cons.IH [OF t(2)] show ?thesis
      by (rule reachable_trans)
  next
    case Consumer
    with Cons.prems obtain t where t: "iter_step s = Some t" "exec sched t = Some s'"
      by (auto split: option.splits)
    from reachable.iter [OF reachable.start t(1)] Cons.IH [OF t(2)] show ?thesis
      by (rule reachable_trans)
  qed
qed

lemma run_step_cases:
  assumes "run_step s = Some s'"
  obtains
    (enter_none) "producer s = Start" "max_id s = None" "s' = s\<lparr>producer := Raised TypeError\<rparr>"
  | (enter_error) m e where "producer s = Start" "max_id s = Some m"
      "py_range 0 m (chunksize s) = Inl e" "s' = s\<lparr>producer := Raised e\<rparr>"
  | (enter) m ids where "producer s = Start" "max_id s = Some m"
      "py_range 0 m (chunksize s) = Inr ids" "s' = s\<lparr>producer := Loop ids\<rparr>"
  | (loop_end) "producer s = Loop []" "s' = s\<lparr>producer := PutNone\<rparr>"
  | (query) i ids where "producer s = Loop (i # ids)"
      "s' = s\<lparr>queries := queries s @ [Range i (i + chunksize s)],
               producer := Put (query_range (table s) i (i + chunksize s)) ids\<rparr>"
  | (put) recs ids where "producer s = Put recs ids" "length (queue s) < queue_maxsize"
      "s' = s\<lparr>queue := queue s @ [Records recs], producer := Loop ids\<rparr>"
  | (put_none) "producer s = PutNone" "length (queue s) < queue_maxsize"
      "s' = s\<lparr>queue := queue s @ [PyNone], producer := Returned\<rparr>"
proof (cases "producer s")
  case Start
  show ?thesis
  proof (cases "max_id s")
    case None
    with Start assms enter_none show ?thesis by (simp add: run_step_def)
  next
    case (Some m)
    show ?thesis
    proof (cases "py_range 0 m (chunksize s)")
      case (Inl e)
      with Start Some assms enter_error show ?thesis by (simp add: run_step_def)
    next
      case (Inr ids)
      with Start Some assms enter show ?thesis by (simp add: run_step_def)
    qed
  qed
next
  case (Loop ids)
  show ?thesis
  proof (cases ids)
    case Nil
    with Loop assms loop_end show ?thesis by (simp add: run_step_def)
  next
    case (Cons i ids')
    with Loop assms query show ?thesis by (simp add: run_step_def)
  qed
next
  case (Put recs ids)
  with assms put show ?thesis by (simp add: run_step_def split: if_splits)
next
  case PutNone
  with assms put_none show ?thesis by (simp add: run_step_def split: if_splits)
next
  case Returned
  with assms show ?thesis by (simp add: run_step_def)
next
  case (Raised e)
  with assms show ?thesis by (simp add: run_step_def)
qed

lemma iter_step_cases:
  assumes "iter_step s = Some s'"
  obtains
    (records) recs q where "consumer s = Iterating" "queue s = Records recs # q"
      "s' = s\<lparr>queue := q, yielded := yielded s @ recs\<rparr>"
  | (none) q where "consumer s = Iterating" "queue s = PyNone # q"
      "s' = s\<lparr>queue := q, consumer := Stopped\<rparr>"
proof (cases "consumer s")
  case Iterating
  show ?thesis
  proof (cases "queue s")
    case Nil
    with Iterating assms show ?thesis by (simp add: iter_step_def)
  next
    case (Cons it q)
    with Iterating assms records none show ?thesis
      by (cases it) (simp_all add: iter_step_def)
  qed
next
  case Stopped
  with assms show ?thesis by (simp add: iter_step_def)
qed

lemma run_step_fixed:
  assumes "run_step s = Some s'"
  shows "table s' = table s \<and> chunksize s' = chunksize s \<and> max_id s' = max_id s \<and>
         consumer s' = consumer s \<and> yielded s' = yielded s"
  using assms by (cases rule: run_step_cases) simp_all

lemma iter_step_fixed:
  assumes "iter_step s = Some s'"
  shows "table s' = table s \<and> chunksize s' = chunksize s \<and> max_id s' = max_id s \<and>
         producer s' = producer s \<and> queries s' = queries s"
  using assms by (cases rule: iter_step_cases) simp_all

lemma run_step_stream:
  assumes "run_step s = Some s'"
  shows "queue s' @ pending s' = queue s @ pending s"
  using assms by (cases rule: run_step_cases) (simp_all add: pending_def chunk_items_def)

lemma run_step_queries:
  assumes "run_step s = Some s'"
  shows "queries s' @ pending_queries s' = queries s @ pending_queries s"
  using assms by (cases rule: run_step_cases) (simp_all add: pending_queries_def range_queries_def)

lemma pending_cong:
  "producer s' = producer s \<Longrightarrow> table s' = table s \<Longrightarrow> chunksize s' = chunksize s \<Longrightarrow>
   max_id s' = max_id s \<Longrightarrow> pending s' = pending s \<and> pending_queries s' = pending_queries s"
  by (simp add: pending_def pending_queries_def chunk_items_def range_queries_def
      cong: producer.case_cong option.case_cong sum.case_cong)

lemma iter_step_pending:
  "iter_step s = Some s' \<Longrightarrow> pending s' = pending s \<and> pending_queries s' = pending_queries s"
  using iter_step_fixed [of s s'] pending_cong [of s' s] by simp

lemma reachable_fixed:
  "reachable s0 s \<Longrightarrow> table s = table s0 \<and> chunksize s = chunksize s0 \<and> max_id s = max_id s0"
  by (induction rule: reachable.induct) (auto dest: run_step_fixed iter_step_fixed)

lemma reachable_queries:
  "reachable s0 s \<Longrightarrow> queries s @ pending_queries s = queries s0 @ pending_queries s0"
proof (induction rule: reachable.induct)
  case start
  show ?case by simp
next
  case (run s s')
  with run_step_queries [of s s'] show ?case by simp
next
  case (iter s s')
  with iter_step_fixed [of s s'] iter_step_pending [of s s'] show ?case by simp
qed

lemma reachable_stream:
  assumes "reachable s0 s" and "consumer s0 = Iterating"
  shows "\<exists>done. queue s0 @ pending s0 =
                  done @ (if consumer s = Stopped then [PyNone] else []) @ queue s @ pending s \<and>
                PyNone \<notin> set done \<and> yielded s = yielded s0 @ rows_of done"
  using assms
proof (induction rule: reachable.induct)
  case start
  then show ?case by (intro exI [of _ "[]"]) simp
next
  case (run s s')
  then obtain d where d: "queue s0 @ pending s0 =
                  d @ (if consumer s = Stopped then [PyNone] else []) @ queue s @ pending s"
      "PyNone \<notin> set d" "yielded s = yielded s0 @ rows_of d"
    by blast
  with run_step_stream [OF run.hyps(2)] run_step_fixed [OF run.hyps(2)] show ?case
    by (intro exI [of _ d]) simp
next
  case (iter s s')
  then obtain d where d: "queue s0 @ pending s0 =
                  d @ (if consumer s = Stopped then [PyNone] else []) @ queue s @ pending s"
      "PyNone \<notin> set d" "yielded s = yielded s0 @ rows_of d"
    by blast
  from iter.hyps(2) iter_step_pending [of s s'] have p: "pending s' = pending s" by simp
  from iter.hyps(2) show ?case
  proof (cases rule: iter_step_cases)
    case (records r q)
    note it = records(1)
    note recs = records(2,3)
    have rows_app: "\<And>a b :: 'a item list. rows_of (a @ b) = rows_of a @ rows_of b"
    proof -
      fix a b :: "'a item list"
      show "rows_of (a @ b) = rows_of a @ rows_of b"
        by (induction a rule: rows_of.induct) simp_all
    qed
    show ?thesis
      using d it p recs
      by (intro exI [of _ "d @ [Records r]"]) (simp add: rows_app)
  next
    case (none q)
    show ?thesis
      using d p none
      by (intro exI [of _ d]) simp
  qed
qed


lemma iter_rows_stop:
  "PyNone \<notin> set d \<Longrightarrow> iter_rows (d @ PyNone # rest) = Some (rows_of d)"
  by (induction d rule: rows_of.induct) simp_all

lemma iter_rows_no_sentinel: "PyNone \<notin> set its \<Longrightarrow> iter_rows its = None"
  by (induction its rule: rows_of.induct) simp_all

lemma rows_of_append: "rows_of (a @ b) = rows_of a @ rows_of b"
  by (induction a rule: rows_of.induct) simp_all

lemma rows_of_Records: "rows_of (map Records bs) = concat bs"
  by (induction bs) simp_all

lemma pending_TableReadThread:
  "queue (TableReadThread tbl c) @ pending (TableReadThread tbl c) =
     (case run_items tbl c of Inl e \<Rightarrow> [] | Inr its \<Rightarrow> its)"
  by (simp add: TableReadThread_def pending_def run_items_def chunk_items_def
      split: option.splits sum.splits)

lemma reader_refines:
  assumes "reachable (TableReadThread tbl c) s" and "consumer s = Stopped"
  shows "read_table tbl c = Some (yielded s)"
proof -
  have "consumer (TableReadThread tbl c) = Iterating"
    by (simp add: TableReadThread_def)
  from reachable_stream [OF assms(1) this] assms(2)
  obtain d where d: "queue (TableReadThread tbl c) @ pending (TableReadThread tbl c) =
      d @ PyNone # queue s @ pending s" "PyNone \<notin> set d"
      "yielded s = yielded (TableReadThread tbl c) @ rows_of d"
    by auto
  from d(1) obtain its where its: "run_items tbl c = Inr its" "its = d @ PyNone # queue s @ pending s"
    by (cases "run_items tbl c") (simp_all add: pending_TableReadThread)
  from d(3) have "yielded s = rows_of d"
    by (simp add: TableReadThread_def)
  with its d(2) show ?thesis
    by (simp add: read_table_def iter_rows_stop)
qed

lemma yielded_prefix:
  assumes "reachable (TableReadThread tbl c) s"
  shows "\<exists>d rest. (case run_items tbl c of Inl e \<Rightarrow> [] | Inr its \<Rightarrow> its) = d @ rest \<and>
           PyNone \<notin> set d \<and> yielded s = rows_of d"
proof -
  have "consumer (TableReadThread tbl c) = Iterating"
    by (simp add: TableReadThread_def)
  from reachable_stream [OF assms this]
  obtain d where d: "queue (TableReadThread tbl c) @ pending (TableReadThread tbl c) =
      d @ (if consumer s = Stopped then [PyNone] else []) @ queue s @ pending s" "PyNone \<notin> set d"
      "yielded s = yielded (TableReadThread tbl c) @ rows_of d"
    by auto
  from d(3) have "yielded s = rows_of d"
    by (simp add: TableReadThread_def)
  with d(1,2) show ?thesis
    unfolding pending_TableReadThread by blast
qed

text \<open>A run in which the consumer leaves its loop exists whenever the functional reading returns.\<close>

lemma drain_loop:
  assumes "producer s = Loop ids" and "queue s = []" and "consumer s = Iterating"
  shows "\<exists>s'. reachable s s' \<and> consumer s' = Stopped"
  using assms
proof (induction ids arbitrary: s)
  case Nil
  let ?s1 = "s\<lparr>producer := PutNone\<rparr>"
  let ?s2 = "?s1\<lparr>queue := queue ?s1 @ [PyNone], producer := Returned\<rparr>"
  let ?s3 = "?s2\<lparr>queue := [], consumer := Stopped\<rparr>"
  have 1: "run_step s = Some ?s1" using Nil by (simp add: run_step_def)
  have 2: "run_step ?s1 = Some ?s2" using Nil by (simp add: run_step_def queue_maxsize_def)
  have 3: "iter_step ?s2 = Some ?s3" using Nil by (simp add: iter_step_def)
  have "reachable s ?s3"
    by (rule reachable.iter [OF reachable.run [OF reachable.run [OF reachable.start 1] 2] 3])
  then show ?case
    by (intro exI [of _ ?s3]) simp
next
  case (Cons i ids)
  let ?recs = "query_range (table s) i (i + chunksize s)"
  let ?s1 = "s\<lparr>queries := queries s @ [Range i (i + chunksize s)], producer := Put ?recs ids\<rparr>"
  let ?s2 = "?s1\<lparr>queue := queue ?s1 @ [Records ?recs], producer := Loop ids\<rparr>"
  let ?s3 = "?s2\<lparr>queue := [], yielded := yielded ?s2 @ ?recs\<rparr>"
  have 1: "run_step s = Some ?s1" using Cons.prems by (simp add: run_step_def)
  have 2: "run_step ?s1 = Some ?s2" using Cons.prems by (simp add: run_step_def queue_maxsize_def)
  have 3: "iter_step ?s2 = Some ?s3" using Cons.prems by (simp add: iter_step_def)
  have r: "reachable s ?s3"
    by (rule reachable.iter [OF reachable.run [OF reachable.run [OF reachable.start 1] 2] 3])
  have "\<exists>s'. reachable ?s3 s' \<and> consumer s' = Stopped"
    using Cons.prems by (intro Cons.IH) simp_all
  then obtain s' where "reachable ?s3 s'" "consumer s' = Stopped" by blast
  with r show ?case
    by (blast intro: reachable_trans)
qed

lemma reader_can_finish:
  assumes "read_table tbl c = Some rows"
  shows "\<exists>s. reachable (TableReadThread tbl c) s \<and> consumer s = Stopped \<and> yielded s = rows"
proof -
  from assms obtain m ids where m: "query_max_id tbl = Some m" "py_range 0 m c = Inr ids"
    by (auto simp add: read_table_def run_items_def split: option.splits sum.splits)
  let ?s0 = "TableReadThread tbl c"
  let ?s1 = "?s0\<lparr>producer := Loop ids\<rparr>"
  have 1: "run_step ?s0 = Some ?s1"
    using m by (simp add: run_step_def TableReadThread_def)
  have "\<exists>s'. reachable ?s1 s' \<and> consumer s' = Stopped"
    by (rule drain_loop [of _ ids]) (simp_all add: TableReadThread_def)
  then obtain s' where s': "reachable ?s1 s'" "consumer s' = Stopped" by blast
  from reachable.run [OF reachable.start 1] s'(1) have r: "reachable ?s0 s'"
    by (rule reachable_trans)
  from reader_refines [OF r s'(2)] assms have "yielded s' = rows" by simp
  with r s'(2) show ?thesis by blast
qed

text \<open>The \<open>None\<close> item is in the queue, or taken, only after \<open>run()\<close> has returned.\<close>

lemma reachable_returned:
  assumes "reachable s0 s" and "queue s0 = []" and "consumer s0 = Iterating"
  shows "producer s = Returned \<or> (consumer s = Iterating \<and> PyNone \<notin> set (queue s))"
  using assms
proof (induction rule: reachable.induct)
  case start
  then show ?case by simp
next
  case (run s s')
  from run.hyps(2) run.IH [OF run.prems] show ?case
    by (cases rule: run_step_cases) auto
next
  case (iter s s')
  from iter.hyps(2) iter.IH [OF iter.prems] show ?case
    by (cases rule: iter_step_cases) auto
qed

lemma stopped_queries:
  assumes "reachable (TableReadThread tbl c) s" and "consumer s = Stopped"
  shows "\<exists>m ids. query_max_id tbl = Some m \<and> py_range 0 m c = Inr ids \<and>
           queries s = MaxId # map (\<lambda>i. Range i (i + c)) ids"
proof -
  from reader_refines [OF assms] obtain m ids where
    m: "query_max_id tbl = Some m" "py_range 0 m c = Inr ids"
    by (auto simp add: read_table_def run_items_def split: option.splits sum.splits)
  have "producer s = Returned"
    using reachable_returned [OF assms(1)] assms(2) by (simp add: TableReadThread_def)
  then have "pending_queries s = []"
    by (simp add: pending_queries_def)
  with reachable_queries [OF assms(1)] m
  have "queries s = MaxId # map (\<lambda>i. Range i (i + c)) ids"
    by (simp add: pending_queries_def TableReadThread_def range_queries_def)
  with m show ?thesis by blast
qed


lemma range_stop_ge: "i \<le> range_stop i m c"
proof (induction i m c rule: range_stop.induct)
  case (1 i stop step)
  show ?case
  proof (cases "0 < step \<and> i < stop")
    case True
    with 1 have "i + step \<le> range_stop (i + step) stop step" by simp
    with True show ?thesis by (subst range_stop.simps) simp
  next
    case False
    then show ?thesis by (subst range_stop.simps) auto
  qed
qed

lemma range_stop_multiple: "0 < c \<Longrightarrow> c dvd (m - i) \<Longrightarrow> i \<le> m \<Longrightarrow> range_stop i m c = m"
proof (induction i m c rule: range_stop.induct)
  case (1 i stop step)
  show ?case
  proof (cases "i < stop")
    case True
    with "1.prems" have "step \<le> stop - i"
      by (intro zdvd_imp_le) simp_all
    moreover from "1.prems" have "step dvd (stop - (i + step))"
      by (metis diff_diff_eq dvd_diff dvd_refl)
    ultimately have "range_stop (i + step) stop step = stop"
      using True "1.prems" by (intro "1.IH") simp_all
    with True "1.prems" show ?thesis by (subst range_stop.simps) simp
  next
    case False
    with "1.prems" show ?thesis by (subst range_stop.simps) simp
  qed
qed

lemma range_up_last:
  "0 < c \<Longrightarrow> c dvd (m - i) \<Longrightarrow> i < m \<Longrightarrow> range_up i m c \<noteq> [] \<and> last (range_up i m c) = m - c"
proof (induction i m c rule: range_up.induct)
  case (1 i stop step)
  from "1.prems" have le: "step \<le> stop - i"
    by (intro zdvd_imp_le) simp_all
  from "1.prems" have dvd: "step dvd (stop - (i + step))"
    by (metis diff_diff_eq dvd_diff dvd_refl)
  have unfold: "range_up i stop step = i # range_up (i + step) stop step"
    using "1.prems" by (subst range_up.simps) simp
  show ?case
  proof (cases "i + step < stop")
    case True
    with "1.prems" dvd have "range_up (i + step) stop step \<noteq> [] \<and>
        last (range_up (i + step) stop step) = stop - step"
      by (intro "1.IH") simp_all
    with unfold show ?thesis by simp
  next
    case False
    with le have "i + step = stop" by simp
    then have "range_up (i + step) stop step = []"
      by (subst range_up.simps) simp
    with unfold \<open>i + step = stop\<close> show ?thesis by simp
  qed
qed

lemma mset_filter_disjoint:
  "(\<And>x. \<not> (P x \<and> Q x)) \<Longrightarrow>
     mset (filter P xs) + mset (filter Q xs) = mset (filter (\<lambda>x. P x \<or> Q x) xs)"
  by (induction xs) auto

lemma range_up_rows:
  "0 < c \<Longrightarrow>
     mset (concat (map (\<lambda>i. query_range tbl i (i + c)) (range_up i m c))) =
     mset (filter (\<lambda>r. i \<le> row_id r \<and> row_id r < range_stop i m c) tbl)"
proof (induction i m c rule: range_up.induct)
  case (1 i stop step)
  show ?case
  proof (cases "i < stop")
    case True
    have up: "range_up i stop step = i # range_up (i + step) stop step"
      using True "1.prems" by (subst range_up.simps) simp
    have st: "range_stop i stop step = range_stop (i + step) stop step"
      using True "1.prems" by (subst range_stop.simps) simp
    have ge: "i + step \<le> range_stop (i + step) stop step"
      by (rule range_stop_ge)
    have IH: "mset (concat (map (\<lambda>i. query_range tbl i (i + step)) (range_up (i + step) stop step))) =
        mset (filter (\<lambda>r. i + step \<le> row_id r \<and> row_id r < range_stop (i + step) stop step) tbl)"
      using True "1.prems" by (intro "1.IH") simp_all
    have "mset (filter (\<lambda>r. i \<le> row_id r \<and> row_id r < i + step) tbl) +
          mset (filter (\<lambda>r. i + step \<le> row_id r \<and> row_id r < range_stop (i + step) stop step) tbl) =
          mset (filter (\<lambda>r. (i \<le> row_id r \<and> row_id r < i + step) \<or>
                            (i + step \<le> row_id r \<and> row_id r < range_stop (i + step) stop step)) tbl)"
      by (rule mset_filter_disjoint) auto
    moreover have "(\<lambda>r::'a row. (i \<le> row_id r \<and> row_id r < i + step) \<or>
                       (i + step \<le> row_id r \<and> row_id r < range_stop (i + step) stop step)) =
                   (\<lambda>r. i \<le> row_id r \<and> row_id r < range_stop (i + step) stop step)"
      using ge "1.prems" by (intro ext) auto
    ultimately show ?thesis
      using IH by (simp add: up st query_range_def)
  next
    case False
    then have "range_up i stop step = []"
      by (subst range_up.simps) auto
    moreover from False have "range_stop i stop step = i"
      by (subst range_stop.simps) auto
    ultimately show ?thesis by simp
  qed
qed

lemma fold_max_eq: "fold max xs (x::int) = Max (set (x # xs))"
  by (rule Max.set_eq_fold [symmetric])

lemma query_max_id_is_max:
  assumes "query_max_id tbl = Some m"
  shows "(\<exists>r\<in>set tbl. row_id r = m) \<and> (\<forall>r\<in>set tbl. row_id r \<le> m)"
proof (cases tbl)
  case Nil
  with assms show ?thesis by simp
next
  case (Cons r rs)
  with assms have m: "m = Max (set (map row_id tbl))"
    by (simp add: fold_max_eq)
  have "Max (set (map row_id tbl)) \<in> set (map row_id tbl)"
    using Cons by (intro Max_in) simp_all
  moreover have "\<forall>r\<in>set tbl. row_id r \<le> Max (set (map row_id tbl))"
    by (auto intro: Max_ge)
  ultimately show ?thesis
    using m by auto
qed

lemma read_table_chunks:
  "query_max_id tbl = Some m \<Longrightarrow> 0 < c \<Longrightarrow>
     read_table tbl c = Some (concat (map (\<lambda>i. query_range tbl i (i + c)) (range_up 0 m c)))"
  using iter_rows_stop [of "map (\<lambda>i. Records (query_range tbl i (i + c))) (range_up 0 m c)" "[]"]
  by (auto simp add: read_table_def run_items_def py_range_def rows_of_Records [symmetric] comp_def)


lemma set_rows_of:
  "set (rows_of its) = (\<Union>it\<in>set its. case it of Records recs \<Rightarrow> set recs | PyNone \<Rightarrow> {})"
  by (induction its rule: rows_of.induct) auto

lemma yielded_in_chunks:
  assumes "reachable (TableReadThread tbl c) s" and "query_max_id tbl = Some m" and "0 < c"
    and "r \<in> set (yielded s)"
  shows "r \<in> set tbl \<and> 0 \<le> row_id r \<and> row_id r < range_stop 0 m c"
proof -
  let ?chunks = "map (\<lambda>i. query_range tbl i (i + c)) (range_up 0 m c)"
  have its: "run_items tbl c = Inr (map Records ?chunks @ [PyNone])"
    using assms(2,3) by (simp add: run_items_def py_range_def comp_def)
  from yielded_prefix [OF assms(1)] its obtain d rest where
    d: "map Records ?chunks @ [PyNone] = d @ rest" "PyNone \<notin> set d" "yielded s = rows_of d"
    by auto
  from assms(4) d(3) obtain it where it: "it \<in> set d" "r \<in> (case it of Records recs \<Rightarrow> set recs | PyNone \<Rightarrow> {})"
    by (auto simp add: set_rows_of)
  from it(1) d(2) have "it \<noteq> PyNone" by auto
  then obtain recs where recs: "it = Records recs"
    by (cases it) simp_all
  from it(1) have "it \<in> set (d @ rest)" by simp
  with d(1) have "it \<in> set (map Records ?chunks @ [PyNone])" by simp
  with recs have "recs \<in> set ?chunks" by auto
  with it(2) recs have "r \<in> set (concat ?chunks)" by auto
  then have "r \<in># mset (concat ?chunks)" by simp
  then have "r \<in># mset (filter (\<lambda>r. 0 \<le> row_id r \<and> row_id r < range_stop 0 m c) tbl)"
    using range_up_rows [OF assms(3), of tbl 0 m] by simp
  then show ?thesis by simp
qed

section \<open>The chunk loop stops short of the maximum id\<close>

text \<open>
  C5. Let the table be non-empty with maximum id \<open>m\<close>, a positive multiple of the chunk
  size \<open>c\<close>. In every state the reader and its consumer can reach, every record yielded
  so far has an id below \<open>m\<close>, so a record of the table with id \<open>m\<close> has not been yielded.
  When the consumer has left its loop, the last query issued is the range
  \<open>id >= m - c\<close> and \<open>id < m\<close>, and the records yielded are exactly the records of the
  table with an id in \<open>[0, m)\<close>. Such a final state can be reached.
\<close>

theorem max_id_row_never_yielded:
  assumes "query_max_id tbl = Some m" and "0 < m" and "0 < c" and "c dvd m"
    and "reachable (TableReadThread tbl c) s"
  shows "(\<forall>r\<in>set (yielded s). row_id r < m) \<and>
         (\<exists>r\<in>set tbl. row_id r = m \<and> r \<notin> set (yielded s)) \<and>
         (consumer s = Stopped \<longrightarrow>
            last (queries s) = Range (m - c) m \<and>
            mset (yielded s) = mset (filter (\<lambda>r. 0 \<le> row_id r \<and> row_id r < m) tbl)) \<and>
         (\<exists>s'. reachable (TableReadThread tbl c) s' \<and> consumer s' = Stopped)"
proof -
  have stop: "range_stop 0 m c = m"
    using assms(2,3,4) by (intro range_stop_multiple) simp_all
  have below: "\<forall>r\<in>set (yielded s). row_id r < m"
    using yielded_in_chunks [OF assms(5,1,3)] stop by auto
  from query_max_id_is_max [OF assms(1)] obtain r where r: "r \<in> set tbl" "row_id r = m"
    by blast
  with below have missing: "\<exists>r\<in>set tbl. row_id r = m \<and> r \<notin> set (yielded s)"
    by auto
  have rt: "read_table tbl c = Some (concat (map (\<lambda>i. query_range tbl i (i + c)) (range_up 0 m c)))"
    by (rule read_table_chunks [OF assms(1,3)])
  have stopped: "last (queries s) = Range (m - c) m \<and>
            mset (yielded s) = mset (filter (\<lambda>r. 0 \<le> row_id r \<and> row_id r < m) tbl)"
    if st: "consumer s = Stopped"
  proof -
    from stopped_queries [OF assms(5) st] assms(1,3)
    have q: "queries s = MaxId # map (\<lambda>i. Range i (i + c)) (range_up 0 m c)"
      by (auto simp add: py_range_def)
    from range_up_last [of c m 0] assms(2,3,4)
    have l: "range_up 0 m c \<noteq> []" "last (range_up 0 m c) = m - c" by simp_all
    from q l have "last (queries s) = Range (m - c) m"
      by (simp add: last_map)
    moreover from reader_refines [OF assms(5) st] rt
    have "yielded s = concat (map (\<lambda>i. query_range tbl i (i + c)) (range_up 0 m c))" by simp
    then have "mset (yielded s) = mset (filter (\<lambda>r. 0 \<le> row_id r \<and> row_id r < m) tbl)"
      using range_up_rows [OF assms(3), of tbl 0 m] stop by simp
    ultimately show ?thesis by simp
  qed
  from reader_can_finish [OF rt]
  have "\<exists>s'. reachable (TableReadThread tbl c) s' \<and> consumer s' = Stopped" by blast
  with below missing stopped show ?thesis by blast
qed

section \<open>Backpressure of the bounded queue\<close>

lemma reachable_queue_bounded:
  assumes "reachable s0 s" and "length (queue s0) \<le> queue_maxsize"
  shows "length (queue s) \<le> queue_maxsize"
  using assms
proof (induction rule: reachable.induct)
  case start
  then show ?case by simp
next
  case (run s s')
  from run.hyps(2) run.IH [OF run.prems] show ?case
    by (cases rule: run_step_cases) simp_all
next
  case (iter s s')
  from iter.hyps(2) iter.IH [OF iter.prems] show ?case
    by (cases rule: iter_step_cases) simp_all
qed

text \<open>
  C6. Under every interleaving of the reader thread and its consumer, for every table and
  chunk size, the queue holds at most 5 items (batches, or the final \<open>None\<close>); and when it
  holds 5 and the thread is at a \<open>put\<close>, the thread cannot move: it stays blocked until
  the consumer takes an item.
\<close>

theorem queue_never_exceeds_maxsize:
  assumes "reachable (TableReadThread tbl c) s"
  shows "length (queue s) \<le> 5 \<and>
         (length (queue s) = 5 \<and> (producer s = PutNone \<or> (\<exists>recs ids. producer s = Put recs ids)) \<longrightarrow>
            run_step s = None)"
proof -
  have "length (queue (TableReadThread tbl c)) \<le> queue_maxsize"
    by (simp add: TableReadThread_def)
  from reachable_queue_bounded [OF assms this] have "length (queue s) \<le> 5"
    by (simp add: queue_maxsize_def)
  moreover have "run_step s = None"
    if "length (queue s) = 5 \<and> (producer s = PutNone \<or> (\<exists>recs ids. producer s = Put recs ids))"
    using that by (auto simp add: run_step_def queue_maxsize_def)
  ultimately show ?thesis by blast
qed

section \<open>An empty table\<close>

lemma empty_reachable:
  assumes "reachable (TableReadThread ([] :: 'p row list) c) s"
  shows "s = TableReadThread [] c \<or> s = (TableReadThread [] c)\<lparr>producer := Raised TypeError\<rparr>"
  using assms
proof (induction rule: reachable.induct)
  case start
  show ?case by simp
next
  case (run s s')
  from run.hyps(2) run.IH show ?case
    by (cases rule: run_step_cases) (auto simp add: TableReadThread_def)
next
  case (iter s s')
  from iter.hyps(2) iter.IH show ?case
    by (cases rule: iter_step_cases) (auto simp add: TableReadThread_def)
qed

text \<open>
  C10. For an empty table the maximum id read by the constructor is \<open>None\<close>. The only step
  the thread can take is to raise \<open>TypeError\<close> on entering its loop; in every reachable
  state the queue is empty, nothing has been yielded, no \<open>None\<close> item arrives, and the
  consumer is still in its loop and cannot move. Read as a function the reader never
  returns, and neither does the loop over the tables in \<open>bake_sqlite\<close>, which builds the
  reader with no check for emptiness.
\<close>

theorem empty_table_never_terminates:
  assumes "reachable (TableReadThread ([] :: 'p row list) c) s"
  shows "max_id s = None \<and> queue s = [] \<and> yielded s = [] \<and> consumer s = Iterating \<and>
         iter_step s = None \<and>
         (producer s = Start \<or> producer s = Raised TypeError \<and> run_step s = None) \<and>
         run_step (TableReadThread ([] :: 'p row list) c) =
           Some ((TableReadThread [] c)\<lparr>producer := Raised TypeError\<rparr>) \<and>
         read_table ([] :: 'p row list) c = None \<and>
         bake_tables ((name, ([] :: 'p row list)) # ts) dest i = None"
  using empty_reachable [OF assms]
  by (auto simp add: TableReadThread_def iter_step_def run_step_def read_table_def run_items_def)

section \<open>Concrete runs of the reader\<close>

lemmas exec_simps = run_step_def iter_step_def TableReadThread_def py_range_def range_up.simps
  query_range_def queue_maxsize_def

theorem max_id_row_never_yielded_witness:
  "query_max_id three_rows = Some 2000 \<and> (0::int) < 2000 \<and> (0::int) < 1000 \<and> (1000::int) dvd 2000 \<and>
   map_option yielded (exec drain_schedule (TableReadThread three_rows 1000)) =
     Some [\<lparr>row_id = 1, row_data = ''a''\<rparr>, \<lparr>row_id = 1000, row_data = ''b''\<rparr>] \<and>
   map_option consumer (exec drain_schedule (TableReadThread three_rows 1000)) = Some Stopped \<and>
   map_option queries (exec drain_schedule (TableReadThread three_rows 1000)) =
     Some [MaxId, Range 0 1000, Range 1000 2000]"
proof -
  obtain s where s: "exec drain_schedule (TableReadThread three_rows 1000) = Some s"
    "yielded s = [\<lparr>row_id = 1, row_data = ''a''\<rparr>, \<lparr>row_id = 1000, row_data = ''b''\<rparr>]"
    "consumer s = Stopped" "queries s = [MaxId, Range 0 1000, Range 1000 2000]"
    by (simp add: drain_schedule_def three_rows_def exec_simps)
  have m: "query_max_id three_rows = Some 2000"
    by (simp add: three_rows_def)
  from max_id_row_never_yielded [OF m _ _ _ exec_reachable [OF s(1)]] s m
  show ?thesis by simp
qed


lemma range_up_100: "length (range_up 0 100 1) = 100"
  by (simp add: range_up.simps)

theorem queue_never_exceeds_maxsize_witness:
  "map_option (\<lambda>s. length (queue s)) (exec producer_only (TableReadThread hundred_batches 1)) = Some 5 \<and>
   map_option (\<lambda>s. case producer s of Put recs ids \<Rightarrow> length ids | _ \<Rightarrow> 0)
     (exec producer_only (TableReadThread hundred_batches 1)) = Some 94 \<and>
   map_option run_step (exec producer_only (TableReadThread hundred_batches 1)) = Some None \<and>
   exec (producer_only @ [Producer]) (TableReadThread hundred_batches 1) = None"
proof -
  obtain s where s: "exec producer_only (TableReadThread hundred_batches 1) = Some s"
    "length (queue s) = 5" "(case producer s of Put recs ids \<Rightarrow> length ids | _ \<Rightarrow> 0) = 94"
    by (simp add: producer_only_def hundred_batches_def exec_simps)
  from s(3) have p: "producer s = PutNone \<or> (\<exists>recs ids. producer s = Put recs ids)"
    by (cases "producer s") simp_all
  have "exec (producer_only @ [Producer]) (TableReadThread hundred_batches 1) = None"
    by (simp add: producer_only_def hundred_batches_def exec_simps)
  with queue_never_exceeds_maxsize [OF exec_reachable [OF s(1)]] s p
  show ?thesis by simp
qed

theorem empty_table_never_terminates_witness:
  "exec [Producer] (TableReadThread ([] :: unit row list) 1000) =
     Some ((TableReadThread [] 1000)\<lparr>producer := Raised TypeError\<rparr>) \<and>
   exec [Producer, Producer] (TableReadThread ([] :: unit row list) 1000) = None \<and>
   exec [Producer, Consumer] (TableReadThread ([] :: unit row list) 1000) = None \<and>
   exec [Consumer] (TableReadThread ([] :: unit row list) 1000) = None \<and>
   read_table ([] :: unit row list) 1000 = None \<and>
   bake_tables [(''slice'', ([] :: unit row list))] [] None = None"
proof -
  have e: "exec [Producer] (TableReadThread ([] :: unit row list) 1000) =
     Some ((TableReadThread [] 1000)\<lparr>producer := Raised TypeError\<rparr>)"
    by (simp add: exec_simps)
  have blocked: "exec [Producer, Producer] (TableReadThread ([] :: unit row list) 1000) = None"
    "exec [Producer, Consumer] (TableReadThread ([] :: unit row list) 1000) = None"
    "exec [Consumer] (TableReadThread ([] :: unit row list) 1000) = None"
    by (simp_all add: exec_simps)
  from empty_table_never_terminates [OF exec_reachable [OF e], of "''slice''" "[]" "[]" None]
  have "read_table ([] :: unit row list) 1000 = None \<and>
        bake_tables [(''slice'', ([] :: unit row list))] [] None = None"
    by blast
  with e blocked show ?thesis by blast
qed

section \<open>Exporting a table of 2500 rows\<close>

text \<open>
  What the reader and the loop over the tables do on a table of 2500 rows with the ids
  1 to 2500 and chunk size 1000: the maximum id is queried first, three range queries
  follow, and the destination receives the records of the source.
\<close>

lemma scenario_max_id:
  assumes "row_id ` set tbl = {1..2500}"
  shows "query_max_id tbl = Some 2500"
proof (cases tbl)
  case Nil
  with assms show ?thesis by simp
next
  case (Cons r rs)
  then have "query_max_id tbl = Some (Max (set (map row_id tbl)))"
    by (simp add: fold_max_eq)
  also have "set (map row_id tbl) = {1..2500}"
    using assms by simp
  also have "Max {1..2500::int} = 2500"
    by (rule Max_eqI) simp_all
  finally show ?thesis .
qed

lemma scenario_ranges:
  "range_up 0 2500 1000 = [0, 1000, 2000]" "range_stop 0 2500 1000 = 3000"
  by (simp_all add: range_up.simps range_stop.simps)

lemma scenario_rows:
  assumes "row_id ` set tbl = {1..2500}"
  shows "\<exists>rows. read_table tbl 1000 = Some rows \<and> mset rows = mset tbl"
proof -
  have all: "filter (\<lambda>r. 0 \<le> row_id r \<and> row_id r < 3000) tbl = tbl"
  proof (rule filter_True)
    show "\<forall>r\<in>set tbl. 0 \<le> row_id r \<and> row_id r < 3000"
    proof
      fix r assume "r \<in> set tbl"
      then have "row_id r \<in> {1..2500}" using assms by blast
      then show "0 \<le> row_id r \<and> row_id r < 3000" by simp
    qed
  qed
  from read_table_chunks [OF scenario_max_id [OF assms], of 1000]
  have "read_table tbl 1000 = Some (concat (map (\<lambda>i. query_range tbl i (i + 1000)) (range_up 0 2500 1000)))"
    by simp
  moreover from range_up_rows [of 1000 tbl 0 2500] all
  have "mset (concat (map (\<lambda>i. query_range tbl i (i + 1000)) (range_up 0 2500 1000))) = mset tbl"
    by (simp add: scenario_ranges)
  ultimately show ?thesis by blast
qed

lemma scenario_reader:
  assumes "row_id ` set tbl = {1..2500}" and "length tbl = 2500"
    and "reachable (TableReadThread tbl 1000) s" and "consumer s = Stopped"
  shows "queries s = [MaxId, Range 0 1000, Range 1000 2000, Range 2000 3000] \<and>
         mset (yielded s) = mset tbl \<and> length (yielded s) = 2500"
proof -
  from stopped_queries [OF assms(3,4)] scenario_max_id [OF assms(1)]
  have q: "queries s = [MaxId, Range 0 1000, Range 1000 2000, Range 2000 3000]"
    by (auto simp add: py_range_def scenario_ranges)
  from scenario_rows [OF assms(1)] reader_refines [OF assms(3,4)]
  have m: "mset (yielded s) = mset tbl" by auto
  then have "length (yielded s) = length tbl"
    by (rule mset_eq_length)
  with q m assms(2) show ?thesis by simp
qed

lemma scenario_bake_tables:
  assumes "row_id ` set tbl = {1..2500}"
  shows "\<exists>rows. bake_tables [(name, tbl)] [] None = Some (Inr [(name, rows)]) \<and> mset rows = mset tbl"
proof -
  from scenario_rows [OF assms] obtain rows where
    rows: "read_table tbl 1000 = Some rows" "mset rows = mset tbl" by blast
  from assms have "tbl \<noteq> []" by auto
  with rows(2) have "rows \<noteq> []" by auto
  with rows show ?thesis by simp
qed

text \<open>
  C4. Exporting a table of 2500 rows (ids 1 to 2500) with chunk size 1000 should query the
  maximum id once, issue the three range queries \<open>[0,1000)\<close>, \<open>[1000,2000)\<close> and
  \<open>[2000,3000)\<close>, and leave 2500 rows in the destination, equal to the source's. The
  reader and the loop over the tables do so, as shown above. \<open>bake_sqlite\<close> itself never
  reaches that loop: its call \<open>create_tables(engine=sqlite_engine)\<close> raises
  \<open>UnboundLocalError\<close>, for every database and every state of the engines, before a
  reader is built. No query is issued and no record is written.
\<close>

theorem bake_sqlite_raises:
  "bake_sqlite cfg pid sqlite_file tables st = Some (Inl (UnboundLocalError ''engine_rw''))"
  by (simp add: bake_sqlite_def create_tables_def create_engine_def)

section \<open>Readiness of experiment jobs\<close>

text \<open>
  One turn of the loop, by the effect of the site, and the entry of the specification
  read off that effect.
\<close>

lemma check_experiments_step:
  "check_experiments c fin load (site # rest) (ready, n) =
     (case site_effect c fin load site of
        Counted \<Rightarrow> check_experiments c fin load rest (ready, n + 1)
      | Passed \<Rightarrow> check_experiments c fin load rest (ready, n)
      | Stored k v \<Rightarrow> check_experiments c fin load rest (AList.update k v ready, n)
      | Propagated e \<Rightarrow> Inl e)"
  by (simp add: site_effect_def split: sum.split prod.split option.split)

lemma spec_ready_entry_effect:
  "spec_ready_entry c fin load site =
     (case site_effect c fin load site of Stored k v \<Rightarrow> Some (k, v) | _ \<Rightarrow> None)"
  by (simp add: spec_ready_entry_def site_effect_def inspect_site_def py_max_def
      split: sum.split prod.split option.split bool.split)

lemma site_effect_Counted:
  "site_effect c fin load site = Counted \<longleftrightarrow> isl (inspect_site fin load site)"
  by (simp add: site_effect_def py_max_def split: sum.split prod.split option.split)

lemma check_experiments_result:
  "check_experiments c fin load sites (ready, n) =
     (case first_escape c fin load sites of
        Some e \<Rightarrow> Inl e
      | None \<Rightarrow>
          Inr (fold (\<lambda>site r. case spec_ready_entry c fin load site of
                                 None \<Rightarrow> r | Some (k, v) \<Rightarrow> AList.update k v r) sites ready,
               n + length (filter (\<lambda>site. isl (inspect_site fin load site)) sites)))"
proof (induction sites arbitrary: ready n)
  case Nil
  show ?case by simp
next
  case (Cons site rest)
  show ?case
  proof (cases "site_effect c fin load site")
    case Counted
    then show ?thesis
      using site_effect_Counted [of c fin load site]
      by (simp add: check_experiments_step Cons.IH spec_ready_entry_effect
          del: check_experiments.simps(2) split: option.split)
  next
    case Passed
    then show ?thesis
      using site_effect_Counted [of c fin load site]
      by (simp add: check_experiments_step Cons.IH spec_ready_entry_effect
          del: check_experiments.simps(2) split: option.split)
  next
    case (Stored k v)
    then show ?thesis
      using site_effect_Counted [of c fin load site]
      by (simp add: check_experiments_step Cons.IH spec_ready_entry_effect
          del: check_experiments.simps(2) split: option.split)
  next
    case (Propagated e)
    then show ?thesis
      by (simp add: check_experiments_step del: check_experiments.simps(2))
  qed
qed


lemma fold_entries_untouched:
  "\<forall>s\<in>set xs. \<forall>w. f s \<noteq> Some (k, w) \<Longrightarrow>
     fold (\<lambda>x m. case f x of None \<Rightarrow> m | Some (k, v) \<Rightarrow> m(k \<mapsto> v)) xs m0 k = m0 k"
proof (induction xs arbitrary: m0)
  case Nil
  show ?case by simp
next
  case (Cons x xs)
  from Cons.prems have rest: "\<forall>s\<in>set xs. \<forall>w. f s \<noteq> Some (k, w)" by simp
  have "(case f x of None \<Rightarrow> m0 | Some (k, v) \<Rightarrow> m0(k \<mapsto> v)) k = m0 k"
  proof (cases "f x")
    case None
    then show ?thesis by simp
  next
    case (Some kv)
    obtain k' v' where kv: "kv = (k', v')" by (cases kv)
    with Some Cons.prems have "k' \<noteq> k" by auto
    with Some kv show ?thesis by simp
  qed
  with Cons.IH [OF rest] show ?case by simp
qed



lemma ready_jobs_returns:
  "ready_jobs c fin slices glob load =
     (case first_escape c fin load (discovered_sites glob slices) of
        Some e \<Rightarrow> Inl e
      | None \<Rightarrow>
          Inr (fold (\<lambda>site r. case spec_ready_entry c fin load site of
                                 None \<Rightarrow> r | Some (k, v) \<Rightarrow> AList.update k v r)
                 (discovered_sites glob slices) []))"
  by (simp add: ready_jobs_def ready_jobs_run_def check_experiments_result split: option.split)

lemmas scenario_simps = ready_jobs_def ready_jobs_run_def discovered_sites_def inspect_site_def
  py_max_def all_comparable_def scenario_finished_def




section \<open>Failures while inspecting one candidate\<close>

text \<open>
  An exception raised inside the \<open>try\<close> block is caught: the candidate is counted (or
  noted under its name) and left out, and the loop goes on as if the candidate were not
  in the list.
\<close>

lemma first_escape_skip:
  "(\<forall>e. site_effect c fin load bad \<noteq> Propagated e) \<Longrightarrow>
     first_escape c fin load (pre @ bad # post) = first_escape c fin load (pre @ post)"
proof (induction pre)
  case Nil
  then show ?case by (cases "site_effect c fin load bad") simp_all
next
  case (Cons x pre)
  then show ?case by (cases "site_effect c fin load x") simp_all
qed

lemma try_failure_isolated:
  assumes "isl (inspect_site fin load bad)"
    and d: "discovered_sites glob slices = pre @ bad # post"
  shows "ready_jobs_run c fin slices glob load =
           (case check_experiments c fin load (pre @ post) ([], 0) of
              Inl e \<Rightarrow> Inl e
            | Inr (ready, n_errors) \<Rightarrow> Inr (ready, n_errors + 1))"
proof -
  from assms(1) have eff: "site_effect c fin load bad = Counted"
    by (simp add: site_effect_Counted)
  then have esc: "first_escape c fin load (pre @ bad # post) = first_escape c fin load (pre @ post)"
    by (intro first_escape_skip) simp
  from eff have none: "spec_ready_entry c fin load bad = None"
    by (simp add: spec_ready_entry_effect)
  show ?thesis
    using assms(1) none
    by (simp add: ready_jobs_run_def d check_experiments_result esc split: option.split)
qed

lemma check_opto_step:
  "check_opto env fin sps (row # rest) (ready, ne, nn) =
     (case row_effect env fin sps row of
        Noted note \<Rightarrow> check_opto env fin sps rest (ready, AList.update (csv_experiment row) note ne, nn)
      | Listed \<Rightarrow> check_opto env fin sps rest (ready, ne, nn @ [csv_experiment row])
      | Kept k t src \<Rightarrow> check_opto env fin sps rest (AList.update k (t, src) ready, ne, nn)
      | Escaped e \<Rightarrow> Inl e)"
  by (simp add: row_effect_def split: sum.split opto_outcome.split option.split)

lemma check_opto_ready:
  "(case check_opto env fin sps rows (ready, ne, nn) of Inl e \<Rightarrow> Inl e | Inr (r, x, y) \<Rightarrow> Inr r) =
     (case opto_first_escape env fin sps rows of
        Some e \<Rightarrow> Inl e
      | None \<Rightarrow>
          Inr (fold (\<lambda>row r. case row_effect env fin sps row of
                               Kept k t src \<Rightarrow> AList.update k (t, src) r | _ \<Rightarrow> r) rows ready))"
proof (induction rows arbitrary: ready ne nn)
  case Nil
  show ?case by simp
next
  case (Cons row rest)
  show ?case
    by (cases "row_effect env fin sps row")
      (simp_all add: check_opto_step Cons.IH del: check_opto.simps(2) split: option.split)
qed

lemma opto_first_escape_skip:
  "(\<forall>e. row_effect env fin sps bad \<noteq> Escaped e) \<Longrightarrow>
     opto_first_escape env fin sps (pre @ bad # post) = opto_first_escape env fin sps (pre @ post)"
proof (induction pre)
  case Nil
  then show ?case by (cases "row_effect env fin sps bad") simp_all
next
  case (Cons x pre)
  then show ?case by (cases "row_effect env fin sps x") simp_all
qed

lemma opto_try_failure_isolated:
  assumes "opto_inspect env fin sps bad = Inl exc"
  shows "opto_ready_jobs env fin sps (pre @ bad # post) = opto_ready_jobs env fin sps (pre @ post)"
proof -
  from assms have eff: "row_effect env fin sps bad = Noted (Caught exc)"
    by (simp add: row_effect_def)
  then have esc: "opto_first_escape env fin sps (pre @ bad # post) =
      opto_first_escape env fin sps (pre @ post)"
    by (intro opto_first_escape_skip) simp
  have "opto_ready_jobs env fin sps rows =
      (case check_opto env fin sps rows ([], [], []) of Inl e \<Rightarrow> Inl e | Inr (r, x, y) \<Rightarrow> Inr r)" for rows
    by (simp add: opto_ready_jobs_def opto_ready_jobs_run_def)
  then show ?thesis
    using eff by (simp add: check_opto_ready esc split: option.split)
qed

lemmas scenario_opto_simps = opto_ready_jobs_def opto_ready_jobs_run_def scenario_env_def
  scenario_opto_finished_def csv_row_named_def opto_inspect_def opto_lookup_def

lemma try_failures_isolated_run:
  "ready_jobs_run all_comparable scenario_finished [''slice_0''] scenario_glob scenario_load =
     Inr ([(''2020-01-01_0'', 1000), (''2020-01-01_2'', 1200)], 1) \<and>
   opto_ready_jobs_run scenario_env scenario_opto_finished [''slice_0'']
       [csv_row_named ''expt_a'', csv_row_named ''expt_b'', csv_row_named ''expt_c''] =
     Inr ([(''expt_a'', 1000, ''connections/expt_a''), (''expt_c'', 1200, ''connections/expt_c'')],
          [(''expt_b'', Caught (Exception ''cannot load''))], [])"
  by (simp add: scenario_simps scenario_glob_def scenario_load_def scenario_opto_simps)

text \<open>
  C3. \<open>ready_jobs\<close> lets an exception out when it is raised after the \<open>try\<close> block,
  while the job id of a candidate is read for the assignment to \<open>ready\<close>. Of two
  discovered sites, the first loads, its modification time and slice timestamp can be
  read and its slice has a success record, but reading its \<open>timestamp\<close> raises
  \<open>KeyError\<close>; the second has nothing wrong and would be ready on its own. \<open>ready_jobs\<close>
  raises the \<open>KeyError\<close> and returns no mapping. The opto module does the same on the
  rows \<open>expt_a\<close>, \<open>expt_d\<close>, \<open>expt_c\<close> where reading \<open>ext_id\<close> of \<open>expt_d\<close>
  raises, although without that row it returns the two other jobs.
\<close>

theorem ready_jobs_propagates:
  "discovered_sites unreadable_id_glob [''slice_0''] = [''slice_0/site_0'', ''slice_0/site_1''] \<and>
   inspect_site scenario_finished unreadable_id_load ''slice_0/site_0'' =
     Inr (\<lparr>last_modification_time = Inr 900, slice_timestamp = Inr ''2020-01-01_0'',
            timestamp = Inl (KeyError ''__timestamp__'')\<rparr>, 900, Some 1000, True) \<and>
   ready_jobs all_comparable scenario_finished [''slice_0''] (\<lambda>path. [''slice_0/site_1''])
       unreadable_id_load = Inr [(''2020-01-01_1'', 1000)] \<and>
   ready_jobs all_comparable scenario_finished [''slice_0''] unreadable_id_glob unreadable_id_load =
     Inl (KeyError ''__timestamp__'') \<and>
   opto_ready_jobs scenario_env scenario_opto_finished [''slice_0'']
       [csv_row_named ''expt_a'', csv_row_named ''expt_c''] =
     Inr [(''expt_a'', 1000, ''connections/expt_a''), (''expt_c'', 1200, ''connections/expt_c'')] \<and>
   opto_ready_jobs scenario_env scenario_opto_finished [''slice_0'']
       [csv_row_named ''expt_a'', csv_row_named ''expt_d'', csv_row_named ''expt_c''] =
     Inl (KeyError ''ext_id'')"
  by (simp add: scenario_simps unreadable_id_glob_def unreadable_id_load_def scenario_opto_simps)

section \<open>Jobs that depend on changed slice jobs\<close>

lemma join_one_slice:
  "distinct (map slice_id slices) \<Longrightarrow>
     map (\<lambda>s. c) (filter (\<lambda>s. x = Some (slice_id s) \<and> P s) slices) =
     (if \<exists>s\<in>set slices. x = Some (slice_id s) \<and> P s then [c] else [])"
proof (induction slices)
  case Nil
  show ?case by simp
next
  case (Cons s rest)
  then have IH: "map (\<lambda>s. c) (filter (\<lambda>s. x = Some (slice_id s) \<and> P s) rest) =
     (if \<exists>s\<in>set rest. x = Some (slice_id s) \<and> P s then [c] else [])"
    by simp
  have fresh: "\<forall>s'\<in>set rest. slice_id s' \<noteq> slice_id s"
  proof
    fix s' assume "s' \<in> set rest"
    then have "slice_id s' \<in> set (map slice_id rest)" by simp
    with Cons.prems show "slice_id s' \<noteq> slice_id s" by auto
  qed
  show ?case
  proof (cases "x = Some (slice_id s)")
    case True
    with fresh have "\<not> (\<exists>s\<in>set rest. x = Some (slice_id s) \<and> P s)" by auto
    with IH True show ?thesis by auto
  next
    case False
    with IH show ?thesis by simp
  qed
qed

lemma join_slice_query_set:
  "set (join_slice_query column experiments slices job_ids) =
     {column e | e. e \<in> set experiments \<and>
        (\<exists>s\<in>set slices. experiment_slice_id e = Some (slice_id s) \<and> slice_acq_timestamp s \<in> set job_ids)}"
  by (auto simp add: join_slice_query_def)

lemma join_slice_query_distinct:
  assumes "distinct (map slice_id slices)"
  shows "join_slice_query column experiments slices job_ids =
     map column (filter (\<lambda>e. \<exists>s\<in>set slices. experiment_slice_id e = Some (slice_id s) \<and>
                                slice_acq_timestamp s \<in> set job_ids) experiments)"
proof (induction experiments)
  case Nil
  show ?case by (simp add: join_slice_query_def)
next
  case (Cons e rest)
  from join_one_slice [OF assms, of "column e" "experiment_slice_id e" "\<lambda>s. slice_acq_timestamp s \<in> set job_ids"]
    Cons.IH
  show ?case by (simp add: join_slice_query_def)
qed

text \<open>
  C9. Called with a module whose class is among the dependencies, \<open>dependent_job_ids\<close>
  returns the result of the join: its elements are exactly the job ids of the
  experiment records whose slice, along the foreign key, has a timestamp among the given
  job ids, and when slice ids are unique it lists each such experiment record once, in
  table order. Called with any other module it raises: \<open>ValueError\<close> in the multipatch
  module, and in the opto module \<open>NameError\<close>, raised while the message is built.
\<close>

theorem dependent_job_ids_spec:
  "(module_type module \<in> set experiment_dependencies \<longrightarrow>
      dependent_job_ids self experiments slices module job_ids =
        Inr (join_slice_query acq_timestamp experiments slices job_ids) \<and>
      set (join_slice_query acq_timestamp experiments slices job_ids) =
        {acq_timestamp e | e. e \<in> set experiments \<and>
           (\<exists>s\<in>set slices. experiment_slice_id e = Some (slice_id s) \<and>
                            slice_acq_timestamp s \<in> set job_ids)} \<and>
      (distinct (map slice_id slices) \<longrightarrow>
         join_slice_query acq_timestamp experiments slices job_ids =
           map acq_timestamp
             (filter (\<lambda>e. \<exists>s\<in>set slices. experiment_slice_id e = Some (slice_id s) \<and>
                                          slice_acq_timestamp s \<in> set job_ids) experiments))) \<and>
   (module_type module \<notin> set experiment_dependencies \<longrightarrow>
      dependent_job_ids self experiments slices module job_ids =
        Inl (ValueError (module_str self @ '' does not depend on module '' @ module_str module))) \<and>
   (module_type module \<in> set opto_experiment_dependencies \<longrightarrow>
      opto_dependent_job_ids self experiments slices module job_ids =
        Inr (join_slice_query experiment_ext_id experiments slices job_ids) \<and>
      set (join_slice_query experiment_ext_id experiments slices job_ids) =
        {experiment_ext_id e | e. e \<in> set experiments \<and>
           (\<exists>s\<in>set slices. experiment_slice_id e = Some (slice_id s) \<and>
                            slice_acq_timestamp s \<in> set job_ids)}) \<and>
   (module_type module \<notin> set opto_experiment_dependencies \<longrightarrow>
      isl (opto_dependent_job_ids self experiments slices module job_ids))"
  by (simp add: dependent_job_ids_def opto_dependent_job_ids_def join_slice_query_set
      join_slice_query_distinct)

theorem dependent_job_ids_spec_witness:
  "dependent_job_ids scenario_experiment_module scenario_experiments scenario_slices
      scenario_slice_module [''2020-01-01_0''] = Inr [''2020-01-01_0''] \<and>
   opto_dependent_job_ids scenario_experiment_module scenario_experiments scenario_slices
      \<lparr>module_type = OptoSlicePipelineModule, module_str = ''opto_slice''\<rparr> [''2020-01-02_0'']
      = Inr [''2020-01-02_1''] \<and>
   dependent_job_ids scenario_experiment_module scenario_experiments scenario_slices
      scenario_experiment_module [''2020-01-01_0''] =
      Inl (ValueError ''experiment does not depend on module experiment'') \<and>
   opto_dependent_job_ids scenario_experiment_module scenario_experiments scenario_slices
      scenario_slice_module [''2020-01-01_0''] = Inl (NameError ''cls'')"
proof -
  have q: "join_slice_query acq_timestamp scenario_experiments scenario_slices [''2020-01-01_0''] = [''2020-01-01_0'']"
    "join_slice_query experiment_ext_id scenario_experiments scenario_slices [''2020-01-02_0''] = [''2020-01-02_1'']"
    by (simp_all add: join_slice_query_def scenario_experiments_def scenario_slices_def)
  have m: "module_type scenario_slice_module \<in> set experiment_dependencies"
    "module_type scenario_experiment_module \<notin> set experiment_dependencies"
    "module_type \<lparr>module_type = OptoSlicePipelineModule, module_str = ''opto_slice''\<rparr> \<in> set opto_experiment_dependencies"
    "module_type scenario_slice_module \<notin> set opto_experiment_dependencies"
    "module_str scenario_experiment_module = ''experiment''"
    by (simp_all add: scenario_slice_module_def scenario_experiment_module_def
        experiment_dependencies_def opto_experiment_dependencies_def)
  note t = dependent_job_ids_spec [where self = scenario_experiment_module
      and experiments = scenario_experiments and slices = scenario_slices]
  from t [where module = scenario_slice_module and job_ids = "[''2020-01-01_0'']"]
    t [where module = scenario_experiment_module and job_ids = "[''2020-01-01_0'']"]
    t [where module = "\<lparr>module_type = OptoSlicePipelineModule, module_str = ''opto_slice''\<rparr>"
        and job_ids = "[''2020-01-02_0'']"]
    q m
  show ?thesis
    by (simp add: opto_dependent_job_ids_def)
qed

end
